theory Spec2Isabelle
  imports Complex_Main "HOL-Library.Log_Nat" "HOL-Library.Signed_Division"
begin

section \<open>Single-precision arithmetic\<close>

text \<open>
  The sketches compute the interpolation fraction in C++ \<^verbatim>\<open>float\<close>
  (IEEE 754 binary32, round to nearest, ties to even, evaluated in software on the
  ESP8266 with no excess precision). A \<^verbatim>\<open>float\<close> value is modelled by the
  rational number it denotes; every operation is the exact operation followed by
  \<open>fl32\<close>, the rounding to a 24-bit significand. The exponent is not bounded:
  for 32-bit \<^verbatim>\<open>int\<close> operands the quotient \<open>i / steps\<close> is at least
  \<open>2\<^sup>-\<^sup>3\<^sup>1\<close> and every product and sum is below \<open>2\<^sup>3\<^sup>3\<close>, far from the
  subnormal and overflow ranges of binary32.
\<close>

definition rne :: "rat \<Rightarrow> int" where
  \<comment> \<open>round to the nearest integer, ties to the even one\<close>
  "rne x =
     (let f = \<lfloor>x\<rfloor>; r = x - of_int f
      in if r < 1 / 2 then f
         else if 1 / 2 < r then f + 1
         else if even f then f else f + 1)"

definition ilog2 :: "rat \<Rightarrow> int" where
  \<comment> \<open>the binary exponent of a positive rational: \<open>2 powi ilog2 x \<le> x < 2 powi (ilog2 x + 1)\<close>\<close>
  "ilog2 x = (if 1 \<le> x then bitlen \<lfloor>x\<rfloor> - 1 else - bitlen (\<lceil>1 / x\<rceil> - 1))"

definition fl32 :: "rat \<Rightarrow> rat" where
  \<comment> \<open>round to nearest even on 24 significant bits; \<open>u\<close> is the unit in the last place\<close>
  "fl32 x =
     (if x = 0 then 0
      else let u = 2 powi (ilog2 \<bar>x\<bar> - 23) in of_int (rne (x / u)) * u)"

definition float_of_int :: "int \<Rightarrow> rat" where
  \<comment> \<open>the conversion \<^verbatim>\<open>(float)k\<close>, also implicit in \<^verbatim>\<open>int * float\<close>\<close>
  "float_of_int k = fl32 (of_int k)"

definition fdiv :: "rat \<Rightarrow> rat \<Rightarrow> rat" where
  "fdiv a b = fl32 (a / b)"

definition fmul :: "rat \<Rightarrow> rat \<Rightarrow> rat" where
  "fmul a b = fl32 (a * b)"

definition fadd :: "rat \<Rightarrow> rat \<Rightarrow> rat" where
  "fadd a b = fl32 (a + b)"

definition int_of_float :: "rat \<Rightarrow> int" where
  \<comment> \<open>the conversion \<^verbatim>\<open>(int)x\<close>: the fractional part is discarded\<close>
  "int_of_float x = (if 0 \<le> x then \<lfloor>x\<rfloor> else \<lceil>x\<rceil>)"

section \<open>Data model\<close>

text \<open>
  Two sketches of the arm controller are verified: \<open>Main_Code\<close> is
  \<^verbatim>\<open>Main_Code/Main_Code.ino\<close> (the four pick-and-place tasks) and
  \<open>Debug_Sketch\<close> is the second sketch (reset and the serial debug move). They share
  \<^verbatim>\<open>Pose\<close>, \<^verbatim>\<open>max5\<close>, \<^verbatim>\<open>clampAngle\<close> and the gripper helpers, and
  differ in the gripper line of \<^verbatim>\<open>writePose\<close>, in where \<^verbatim>\<open>moveToPose\<close>
  converts back to \<^verbatim>\<open>int\<close>, and in the tuned constants.

  The sketches run on an ESP8266 board, where \<^verbatim>\<open>int\<close> has 32 bits. C++
  \<^verbatim>\<open>int\<close> is modelled by \<open>int\<close>, and the model is the program as long as
  every \<^verbatim>\<open>int\<close> it computes is in the range of \<open>int32\<close> and every
  \<^verbatim>\<open>float\<close> it converts to \<^verbatim>\<open>int\<close> is \<open>convertible\<close>; beyond that the
  behaviour of the C++ program is undefined. The theorems on the value of
  \<^verbatim>\<open>maxDelta\<close>, on the step count it gives and on the values of the intermediate
  poses assume poses whose fields are \<open>bounded\<close>, and for these the model never
  leaves that range (\<open>maxDelta_int32\<close>, \<open>steps_int32\<close>,
  \<open>interpolate_no_overflow\<close>).
\<close>

datatype sketch = Main_Code | Debug_Sketch

record Pose =
  base :: int
  shoulder :: int
  elbow :: int
  wrist :: int
  gripper :: int

text \<open>The tunable angle constants of a sketch.\<close>

record limits =
  BASE_MIN :: int
  BASE_MAX :: int
  SHOULDER_MIN :: int
  SHOULDER_MAX :: int
  ELBOW_MIN :: int
  ELBOW_MAX :: int
  WRIST_MIN :: int
  WRIST_MAX :: int
  GRIPPER_OPEN :: int
  GRIPPER_CLOSE :: int

definition limits_Main_Code :: limits where
  "limits_Main_Code =
     \<lparr>BASE_MIN = 10, BASE_MAX = 170, SHOULDER_MIN = 20, SHOULDER_MAX = 160,
      ELBOW_MIN = 10, ELBOW_MAX = 170, WRIST_MIN = 10, WRIST_MAX = 170,
      GRIPPER_OPEN = 90, GRIPPER_CLOSE = 40\<rparr>"

definition limits_Debug_Sketch :: limits where
  "limits_Debug_Sketch =
     \<lparr>BASE_MIN = 0, BASE_MAX = 180, SHOULDER_MIN = 0, SHOULDER_MAX = 180,
      ELBOW_MIN = 0, ELBOW_MAX = 180, WRIST_MIN = 0, WRIST_MAX = 180,
      GRIPPER_OPEN = 0, GRIPPER_CLOSE = 100\<rparr>"

fun homePose :: "sketch \<Rightarrow> Pose" where
  "homePose Main_Code =
     \<lparr>base = 90, shoulder = 90, elbow = 90, wrist = 90,
      gripper = GRIPPER_OPEN limits_Main_Code\<rparr>"
| "homePose Debug_Sketch =
     \<lparr>base = 180, shoulder = 0, elbow = 100, wrist = 0,
      gripper = GRIPPER_OPEN limits_Debug_Sketch\<rparr>"

text \<open>
  Everything a run does to the outside, in order: a \<^verbatim>\<open>Servo::write\<close> on one of
  the five servo objects, a blocking \<^verbatim>\<open>delay\<close>, a line on the serial port. The
  store into the global \<^verbatim>\<open>currentPose\<close> is logged too, so that a run shows when
  the global is assigned.
\<close>

datatype servo = baseServo | shoulderServo | elbowServo | wristServo | gripperServo

datatype event =
    ServoWrite servo int
  | Delay int
  | StoreCurrentPose Pose
  | SerialPrint string
  | SerialPrintln string
  | SerialPrintlnInt int

record state =
  currentPose :: Pose
  trace :: "event list"

text \<open>
  The failures of a run that the operations report: a division by zero, and a
  \<^verbatim>\<open>%d\<close> conversion of \<^verbatim>\<open>sscanf\<close> whose value does not fit the \<^verbatim>\<open>int\<close> it
  is stored in.
\<close>

datatype error = DivideByZero | IntOverflow

text \<open>
  The values of a 32-bit \<^verbatim>\<open>int\<close>; the \<^verbatim>\<open>float\<close> values that the conversion
  to \<^verbatim>\<open>int\<close> accepts (those whose integral part is such a value); and the bound
  on joint values under which \<^verbatim>\<open>moveToPose\<close> stays inside both.
\<close>

definition int32 :: "int \<Rightarrow> bool" where
  "int32 k \<longleftrightarrow> - (2 ^ 31) \<le> k \<and> k \<le> 2 ^ 31 - 1"

definition pose32 :: "Pose \<Rightarrow> bool" where
  "pose32 p \<longleftrightarrow>
     int32 (base p) \<and> int32 (shoulder p) \<and> int32 (elbow p) \<and> int32 (wrist p) \<and>
     int32 (gripper p)"

definition convertible :: "rat \<Rightarrow> bool" where
  "convertible x \<longleftrightarrow> - (2 ^ 31) - 1 < x \<and> x < 2 ^ 31"

definition bounded :: "int \<Rightarrow> bool" where
  "bounded k \<longleftrightarrow> \<bar>k\<bar> \<le> 2 ^ 29"

definition bounded_pose :: "Pose \<Rightarrow> bool" where
  "bounded_pose p \<longleftrightarrow>
     bounded (base p) \<and> bounded (shoulder p) \<and> bounded (elbow p) \<and> bounded (wrist p) \<and>
     bounded (gripper p)"

definition emit :: "event list \<Rightarrow> state \<Rightarrow> state" where
  "emit es s = s\<lparr>trace := trace s @ es\<rparr>"

section \<open>Helpers\<close>

definition max5 :: "int \<Rightarrow> int \<Rightarrow> int \<Rightarrow> int \<Rightarrow> int \<Rightarrow> int" where
  "max5 a b c d e =
     (let m = a;
          m = (if b > m then b else m);
          m = (if c > m then c else m);
          m = (if d > m then d else m);
          m = (if e > m then e else m)
      in m)"

definition clampAngle :: "int \<Rightarrow> int \<Rightarrow> int \<Rightarrow> int" where
  "clampAngle angle minVal maxVal =
     (if angle < minVal then minVal
      else if angle > maxVal then maxVal
      else angle)"

section \<open>The pose writer\<close>

text \<open>
  \<^verbatim>\<open>Main_Code.ino\<close> passes the gripper angle on as it is
  (\<^verbatim>\<open>gripperServo.write(p.gripper); // you can also clamp this if needed\<close>); the
  debug sketch clamps it with \<^verbatim>\<open>GRIPPER_OPEN\<close> as the lower and
  \<^verbatim>\<open>GRIPPER_CLOSE\<close> as the upper argument.
\<close>

definition gripperValue :: "sketch \<Rightarrow> limits \<Rightarrow> int \<Rightarrow> int" where
  "gripperValue sk cfg g =
     (case sk of
        Main_Code \<Rightarrow> g
      | Debug_Sketch \<Rightarrow> clampAngle g (GRIPPER_OPEN cfg) (GRIPPER_CLOSE cfg))"

definition servoWrites :: "sketch \<Rightarrow> limits \<Rightarrow> Pose \<Rightarrow> event list" where
  "servoWrites sk cfg p =
     [ServoWrite baseServo (clampAngle (base p) (BASE_MIN cfg) (BASE_MAX cfg)),
      ServoWrite shoulderServo (clampAngle (shoulder p) (SHOULDER_MIN cfg) (SHOULDER_MAX cfg)),
      ServoWrite elbowServo (clampAngle (elbow p) (ELBOW_MIN cfg) (ELBOW_MAX cfg)),
      ServoWrite wristServo (clampAngle (wrist p) (WRIST_MIN cfg) (WRIST_MAX cfg)),
      ServoWrite gripperServo (gripperValue sk cfg (gripper p))]"

definition writePose :: "sketch \<Rightarrow> limits \<Rightarrow> Pose \<Rightarrow> state \<Rightarrow> state" where
  "writePose sk cfg p s = emit (servoWrites sk cfg p) s"

definition delay :: "int \<Rightarrow> state \<Rightarrow> state" where
  "delay ms s = emit [Delay ms] s"

section \<open>The interpolator\<close>

text \<open>
  The differences, their absolute values, the step count and the interpolated values
  are computed in \<open>int\<close>; they are the values of the program where they are in the
  range of \<open>int32\<close> and the converted \<^verbatim>\<open>float\<close> is \<open>convertible\<close>.

  One joint of one intermediate pose. \<^verbatim>\<open>Main_Code.ino\<close> writes
  \<^verbatim>\<open>start.base + deltaBase * t\<close>: the sum is a \<^verbatim>\<open>float\<close> and the assignment to
  the \<^verbatim>\<open>int\<close> field truncates it. The debug sketch writes
  \<^verbatim>\<open>start.base + (int)(deltaBase * t)\<close>: the product is truncated and the sum is an
  \<^verbatim>\<open>int\<close>.
\<close>

definition interpolate :: "sketch \<Rightarrow> int \<Rightarrow> int \<Rightarrow> rat \<Rightarrow> int" where
  "interpolate sk start delta t =
     (case sk of
        Main_Code \<Rightarrow> int_of_float (fadd (float_of_int start) (fmul (float_of_int delta) t))
      | Debug_Sketch \<Rightarrow> start + int_of_float (fmul (float_of_int delta) t))"

text \<open>
  The body of the loop up to \<^verbatim>\<open>writePose(intermediate)\<close>; \<open>delta\<close> holds the five
  locals \<^verbatim>\<open>deltaBase\<close> .. \<^verbatim>\<open>deltaGripper\<close>.
\<close>

definition intermediatePose :: "sketch \<Rightarrow> Pose \<Rightarrow> Pose \<Rightarrow> int \<Rightarrow> int \<Rightarrow> Pose" where
  "intermediatePose sk start delta steps i =
     (let t = fdiv (float_of_int i) (float_of_int steps)
      in \<lparr>base = interpolate sk (base start) (base delta) t,
          shoulder = interpolate sk (shoulder start) (shoulder delta) t,
          elbow = interpolate sk (elbow start) (elbow delta) t,
          wrist = interpolate sk (wrist start) (wrist delta) t,
          gripper = interpolate sk (gripper start) (gripper delta) t\<rparr>)"

text \<open>\<^verbatim>\<open>for (int i = ...; i <= steps; i++) { ... }\<close>, entered with the current \<open>i\<close>.\<close>

function moveLoop ::
  "sketch \<Rightarrow> limits \<Rightarrow> Pose \<Rightarrow> Pose \<Rightarrow> int \<Rightarrow> int \<Rightarrow> int \<Rightarrow> state \<Rightarrow> state" where
  "moveLoop sk cfg start delta speedDelayMs steps i s =
     (if i \<le> steps
      then moveLoop sk cfg start delta speedDelayMs steps (i + 1)
             (delay speedDelayMs
                (writePose sk cfg (intermediatePose sk start delta steps i) s))
      else s)"
  by pat_completeness auto
termination
  by (relation "measure (\<lambda>(sk, cfg, start, delta, speedDelayMs, steps, i, s). nat (steps + 1 - i))")
     auto

definition deltas :: "Pose \<Rightarrow> Pose \<Rightarrow> Pose" where
  "deltas start target =
     \<lparr>base = base target - base start,
      shoulder = shoulder target - shoulder start,
      elbow = elbow target - elbow start,
      wrist = wrist target - wrist start,
      gripper = gripper target - gripper start\<rparr>"

definition maxDelta :: "Pose \<Rightarrow> int" where
  "maxDelta delta =
     max5 \<bar>base delta\<bar> \<bar>shoulder delta\<bar> \<bar>elbow delta\<bar> \<bar>wrist delta\<bar> \<bar>gripper delta\<bar>"

text \<open>
  \<^verbatim>\<open>int steps = maxDelta / stepSize; if (steps < 1) steps = 1;\<close> The quotient of
  C++ truncates towards zero (\<open>sdiv\<close>); dividing by zero is an error of the run.
\<close>

definition stepCount :: "int \<Rightarrow> int \<Rightarrow> error + int" where
  "stepCount md stepSize =
     (if stepSize = 0 then Inl DivideByZero
      else let steps = md sdiv stepSize
           in Inr (if steps < 1 then 1 else steps))"

definition moveToPose ::
  "sketch \<Rightarrow> limits \<Rightarrow> Pose \<Rightarrow> int \<Rightarrow> int \<Rightarrow> state \<Rightarrow> error + state" where
  "moveToPose sk cfg target speedDelayMs stepSize s =
     (let start = currentPose s;
          delta = deltas start target
      in case stepCount (maxDelta delta) stepSize of
           Inl err \<Rightarrow> Inl err
         | Inr steps \<Rightarrow>
             let s1 = moveLoop sk cfg start delta speedDelayMs steps 1 s;
                 s2 = emit [StoreCurrentPose target] (s1\<lparr>currentPose := target\<rparr>)
             in Inr (writePose sk cfg (currentPose s2) s2))"

section \<open>Gripper helpers\<close>

definition openGripper :: "sketch \<Rightarrow> limits \<Rightarrow> int \<Rightarrow> state \<Rightarrow> error + state" where
  "openGripper sk cfg speedDelayMs s =
     (let target = (currentPose s)\<lparr>gripper := GRIPPER_OPEN cfg\<rparr>
      in moveToPose sk cfg target speedDelayMs 2 s)"

definition closeGripper :: "sketch \<Rightarrow> limits \<Rightarrow> int \<Rightarrow> state \<Rightarrow> error + state" where
  "closeGripper sk cfg speedDelayMs s =
     (let target = (currentPose s)\<lparr>gripper := GRIPPER_CLOSE cfg\<rparr>
      in moveToPose sk cfg target speedDelayMs 2 s)"

section \<open>The serial debug command\<close>










text \<open>Classes of events, for counting them in a trace.\<close>

fun is_store :: "event \<Rightarrow> bool" where
  "is_store (StoreCurrentPose p) = True"
| "is_store e = False"

fun is_delay :: "event \<Rightarrow> bool" where
  "is_delay (Delay ms) = True"
| "is_delay e = False"

fun is_write :: "servo \<Rightarrow> event \<Rightarrow> bool" where
  "is_write sv (ServoWrite sv' v) = (sv = sv')"
| "is_write sv e = False"

text \<open>
  The events of one turn of the loop: the five servo writes of
  \<^verbatim>\<open>writePose(intermediate)\<close>, then \<^verbatim>\<open>delay(speedDelayMs)\<close>.
\<close>

definition stepEvents ::
  "sketch \<Rightarrow> limits \<Rightarrow> Pose \<Rightarrow> Pose \<Rightarrow> int \<Rightarrow> int \<Rightarrow> int \<Rightarrow> event list" where
  "stepEvents sk cfg start delta speedDelayMs steps i =
     servoWrites sk cfg (intermediatePose sk start delta steps i) @ [Delay speedDelayMs]"

text \<open>
  Integers of magnitude up to \<open>2\<^sup>2\<^sup>4\<close> are \<^verbatim>\<open>float\<close> values: converting them
  does not round.
\<close>

definition small :: "int \<Rightarrow> bool" where
  "small k \<longleftrightarrow> \<bar>k\<bar> \<le> 2 ^ 24"

definition small_pose :: "Pose \<Rightarrow> bool" where
  "small_pose p \<longleftrightarrow>
     small (base p) \<and> small (shoulder p) \<and> small (elbow p) \<and> small (wrist p) \<and> small (gripper p)"

text \<open>The five joints of a pose, as its field selectors.\<close>

definition joints :: "(Pose \<Rightarrow> int) list" where
  "joints = [base, shoulder, elbow, wrist, gripper]"

section \<open>Runs of the interpolator\<close>

declare moveLoop.simps [simp del]

lemma emit_emit: "emit b (emit a s) = emit (a @ b) s"
  by (simp add: emit_def)

lemma emit_Nil: "emit [] s = s"
  by (simp add: emit_def)

lemma moveLoop_emit:
  "moveLoop sk cfg start delta ms steps i s =
     emit (concat (map (stepEvents sk cfg start delta ms steps) [i..steps])) s"
proof (induction sk cfg start delta ms steps i s rule: moveLoop.induct)
  case (1 sk cfg start delta ms steps i s)
  show ?case
  proof (cases "i \<le> steps")
    case True
    have "moveLoop sk cfg start delta ms steps i s =
          moveLoop sk cfg start delta ms steps (i + 1)
            (delay ms (writePose sk cfg (intermediatePose sk start delta steps i) s))"
      using True by (subst moveLoop.simps) simp
    also have "\<dots> = emit (concat (map (stepEvents sk cfg start delta ms steps) [i + 1..steps]))
            (delay ms (writePose sk cfg (intermediatePose sk start delta steps i) s))"
      using True by (rule "1.IH")
    also have "\<dots> = emit (concat (map (stepEvents sk cfg start delta ms steps) [i..steps])) s"
      using True
      by (simp add: upto_rec1 [of i steps] delay_def writePose_def emit_emit stepEvents_def)
    finally show ?thesis .
  next
    case False
    then show ?thesis
      by (subst moveLoop.simps) (simp add: emit_Nil)
  qed
qed

lemma max5_Max: "max5 a b c d e = Max {a, b, c, d, e}"
  by (simp add: max5_def Let_def max_def)

lemma max5_nonneg: "0 \<le> a \<Longrightarrow> 0 \<le> max5 a b c d e"
  by (simp add: max5_def Let_def)

lemma maxDelta_nonneg: "0 \<le> maxDelta d"
  by (simp add: maxDelta_def max5_nonneg)

lemma sdiv_pos: "0 \<le> a \<Longrightarrow> 0 < b \<Longrightarrow> a sdiv b = a div (b::int)"
  by (simp add: signed_divide_int_def sgn_if)

lemma sdiv_neg: "0 \<le> a \<Longrightarrow> b < 0 \<Longrightarrow> a sdiv (b::int) \<le> 0"
  by (simp add: signed_divide_int_def sgn_if pos_imp_zdiv_nonneg_iff)

lemma stepCount_pos:
  "0 \<le> md \<Longrightarrow> 0 < stepSize \<Longrightarrow> stepCount md stepSize = Inr (max 1 (md div stepSize))"
  by (simp add: stepCount_def sdiv_pos Let_def max_def)

lemma stepCount_neg: "0 \<le> md \<Longrightarrow> stepSize < 0 \<Longrightarrow> stepCount md stepSize = Inr 1"
  using sdiv_neg [of md stepSize] by (simp add: stepCount_def Let_def)

lemma stepCount_Inr: "stepSize \<noteq> 0 \<Longrightarrow> \<exists>n. stepCount md stepSize = Inr n \<and> 1 \<le> n"
  by (simp add: stepCount_def Let_def)

lemma stepCount_ge1: "stepCount md stepSize = Inr n \<Longrightarrow> 1 \<le> n"
  by (auto simp add: stepCount_def Let_def split: if_splits)

lemma moveToPose_Inr:
  assumes "stepCount (maxDelta (deltas (currentPose s) target)) stepSize = Inr steps"
  shows "moveToPose sk cfg target ms stepSize s =
           Inr \<lparr>currentPose = target,
                trace = trace s @
                  concat (map (stepEvents sk cfg (currentPose s)
                                 (deltas (currentPose s) target) ms steps) [1..steps]) @
                  StoreCurrentPose target # servoWrites sk cfg target\<rparr>"
  using assms by (simp add: moveToPose_def Let_def moveLoop_emit writePose_def emit_def)

lemma length_filter_concat_const:
  "(\<And>x. x \<in> set xs \<Longrightarrow> length (filter P (f x)) = c) \<Longrightarrow>
   length (filter P (concat (map f xs))) = c * length xs"
  by (induction xs) simp_all

lemma filter_concat_Nil:
  "(\<And>x. x \<in> set xs \<Longrightarrow> filter P (f x) = []) \<Longrightarrow> filter P (concat (map f xs)) = []"
  by (induction xs) simp_all

lemma writes_servoWrites: "length (filter (is_write sv) (servoWrites sk cfg p)) = 1"
  by (cases sv) (simp_all add: servoWrites_def)

lemma delays_servoWrites: "filter is_delay (servoWrites sk cfg p) = []"
  by (simp add: servoWrites_def)

lemma stores_servoWrites: "filter is_store (servoWrites sk cfg p) = []"
  by (simp add: servoWrites_def)

lemma writes_stepEvents: "length (filter (is_write sv) (stepEvents sk cfg a d ms n i)) = 1"
  by (simp add: stepEvents_def writes_servoWrites)

lemma delays_stepEvents: "length (filter is_delay (stepEvents sk cfg a d ms n i)) = 1"
  by (simp add: stepEvents_def delays_servoWrites)

lemma stores_stepEvents: "filter is_store (stepEvents sk cfg a d ms n i) = []"
  by (simp add: stepEvents_def stores_servoWrites)

section \<open>Properties of the single-precision rounding\<close>

lemma ilog2_bounds_ge1:
  assumes "1 \<le> x"
  shows "2 powi (ilog2 x) \<le> x \<and> x < 2 powi (ilog2 x + 1)"
proof -
  let ?n = "\<lfloor>x\<rfloor>"
  have n: "1 \<le> ?n" using assms by simp
  then have b: "1 \<le> bitlen ?n" by (simp add: bitlen_alt_def)
  have bd: "2 ^ nat (bitlen ?n - 1) \<le> ?n" "?n < 2 ^ nat (bitlen ?n)"
    using bitlen_bounds [of ?n] n by auto
  have il: "ilog2 x = bitlen ?n - 1" using assms by (simp add: ilog2_def)
  have "(2::rat) powi (ilog2 x) = of_int (2 ^ nat (bitlen ?n - 1))"
    using b by (simp add: il power_int_def)
  also have "\<dots> \<le> of_int ?n" using bd(1) by (simp only: of_int_le_iff)
  also have "\<dots> \<le> x" by simp
  finally have lo: "2 powi (ilog2 x) \<le> x" .
  have "?n + 1 \<le> 2 ^ nat (bitlen ?n)" using bd(2) by simp
  then have "(of_int (?n + 1) :: rat) \<le> of_int (2 ^ nat (bitlen ?n))"
    by (simp only: of_int_le_iff)
  moreover have "x < of_int (?n + 1)" by linarith
  ultimately have "x < of_int (2 ^ nat (bitlen ?n))" by linarith
  also have "\<dots> = 2 powi (ilog2 x + 1)"
    using b by (simp add: il power_int_def)
  finally show ?thesis using lo by simp
qed

lemma ilog2_bounds_lt1:
  assumes "0 < x" "x < 1"
  shows "2 powi (ilog2 x) \<le> x \<and> x < 2 powi (ilog2 x + 1)"
proof -
  let ?y = "1 / x"
  let ?k = "\<lceil>?y\<rceil> - 1"
  let ?c = "bitlen ?k"
  have y: "1 < ?y" using assms by simp
  then have k: "1 \<le> ?k" by linarith
  then have c: "1 \<le> ?c" by (simp add: bitlen_alt_def)
  have bd: "2 ^ nat (?c - 1) \<le> ?k" "?k < 2 ^ nat ?c"
    using bitlen_bounds [of ?k] k by auto
  have il: "ilog2 x = - ?c" using assms by (simp add: ilog2_def)
  have "?y \<le> of_int (?k + 1)" by simp
  also have "\<dots> \<le> of_int (2 ^ nat ?c)"
    using bd(2) by (simp only: of_int_le_iff)
  finally have "?y \<le> 2 ^ nat ?c" by simp
  then have "1 \<le> x * 2 ^ nat ?c" using assms(1) by (simp add: field_simps)
  then have lo: "2 powi (ilog2 x) \<le> x"
    using c by (simp add: il power_int_def field_simps)
  have "(of_int (2 ^ nat (?c - 1)) :: rat) \<le> of_int ?k"
    using bd(1) by (simp only: of_int_le_iff)
  moreover have "of_int ?k < ?y" by linarith
  ultimately have "2 ^ nat (?c - 1) < ?y" by simp
  then have "x < 1 / 2 ^ nat (?c - 1)" using assms(1) by (simp add: field_simps)
  moreover have "(2::rat) powi (ilog2 x + 1) = 1 / 2 ^ nat (?c - 1)"
    using c by (simp add: il power_int_def field_simps nat_diff_distrib)
  ultimately have "x < 2 powi (ilog2 x + 1)"
    by (simp only:)
  with lo show ?thesis by simp
qed

lemma ilog2_bounds:
  "0 < x \<Longrightarrow> 2 powi (ilog2 x) \<le> x \<and> x < 2 powi (ilog2 x + 1)"
  using ilog2_bounds_ge1 [of x] ilog2_bounds_lt1 [of x] by (cases "1 \<le> x") auto


lemma rne_of_int: "rne (of_int k) = k"
  by (simp add: rne_def)

lemma rne_lower: "\<lfloor>x\<rfloor> \<le> rne x"
  by (simp add: rne_def Let_def)

lemma rne_upper: "rne x \<le> \<lfloor>x\<rfloor> + 1"
  by (simp add: rne_def Let_def)

lemma rne_mono:
  assumes "x \<le> y"
  shows "rne x \<le> rne y"
proof (cases "\<lfloor>x\<rfloor> = \<lfloor>y\<rfloor>")
  case True
  then show ?thesis
    using assms by (auto simp add: rne_def Let_def)
next
  case False
  moreover have "\<lfloor>x\<rfloor> \<le> \<lfloor>y\<rfloor>"
    using assms by (rule floor_mono)
  ultimately have "\<lfloor>x\<rfloor> + 1 \<le> \<lfloor>y\<rfloor>"
    by simp
  then show ?thesis
    using rne_upper [of x] rne_lower [of y] by linarith
qed

lemma rne_minus: "rne (- x) = - rne x"
proof (cases "x \<in> \<int>")
  case True
  then obtain k where "x = of_int k"
    by (auto elim: Ints_cases)
  then have "- x = of_int (- k)"
    by simp
  then show ?thesis
    using \<open>x = of_int k\<close> by (simp only: rne_of_int)
next
  case False
  then have "x \<noteq> of_int \<lfloor>x\<rfloor>"
    by (metis Ints_of_int)
  then have f: "\<lfloor>- x\<rfloor> = - \<lfloor>x\<rfloor> - 1"
    by (simp add: floor_minus ceiling_altdef)
  have r: "- x - of_int (- \<lfloor>x\<rfloor> - 1) = 1 - (x - of_int \<lfloor>x\<rfloor>)"
    by simp
  show ?thesis
    unfolding rne_def Let_def f r by auto
qed


lemma ilog2_mono:
  assumes "0 < x" "x \<le> y"
  shows "ilog2 x \<le> ilog2 y"
proof (rule ccontr)
  assume "\<not> ilog2 x \<le> ilog2 y"
  then have "ilog2 y + 1 \<le> ilog2 x"
    by simp
  then have "(2::rat) powi (ilog2 y + 1) \<le> 2 powi (ilog2 x)"
    by (intro power_int_increasing) simp_all
  moreover have "y < 2 powi (ilog2 y + 1)" "2 powi (ilog2 x) \<le> x"
    using ilog2_bounds [of x] ilog2_bounds [of y] assms by auto
  ultimately show False
    using assms(2) by linarith
qed

lemma ulp_times: "(2::rat) ^ 23 * 2 powi (l - 23) = 2 powi l"
  by (simp add: power_int_diff)

lemma ulp_times': "(2::rat) ^ 24 * 2 powi (l - 23) = 2 powi (l + 1)"
  by (simp add: power_int_diff power_int_add)

lemma fl32_pos:
  "0 < x \<Longrightarrow> fl32 x = of_int (rne (x / 2 powi (ilog2 x - 23))) * 2 powi (ilog2 x - 23)"
  by (simp add: fl32_def Let_def)

lemma scaled_bounds:
  assumes "0 < x"
  shows "2 ^ 23 \<le> x / 2 powi (ilog2 x - 23)" and "x / 2 powi (ilog2 x - 23) < 2 ^ 24"
proof -
  have u: "(0::rat) < 2 powi (ilog2 x - 23)"
    by simp
  have "2 ^ 23 * 2 powi (ilog2 x - 23) \<le> x"
    using ilog2_bounds [OF assms] by (simp only: ulp_times)
  then show "2 ^ 23 \<le> x / 2 powi (ilog2 x - 23)"
    using u by (simp only: pos_le_divide_eq)
  have "x < 2 ^ 24 * 2 powi (ilog2 x - 23)"
    using ilog2_bounds [OF assms] by (simp only: ulp_times')
  then show "x / 2 powi (ilog2 x - 23) < 2 ^ 24"
    using u by (simp only: pos_divide_less_eq)
qed

lemma rne_scaled_bounds:
  assumes "0 < x"
  shows "2 ^ 23 \<le> rne (x / 2 powi (ilog2 x - 23))" and "rne (x / 2 powi (ilog2 x - 23)) \<le> 2 ^ 24"
proof -
  have "rne (of_int (2 ^ 23)) \<le> rne (x / 2 powi (ilog2 x - 23))"
    using scaled_bounds(1) [OF assms] by (intro rne_mono) simp
  then show "2 ^ 23 \<le> rne (x / 2 powi (ilog2 x - 23))"
    by (simp only: rne_of_int)
  have "rne (x / 2 powi (ilog2 x - 23)) \<le> rne (of_int (2 ^ 24))"
    using scaled_bounds(2) [OF assms] by (intro rne_mono) simp
  then show "rne (x / 2 powi (ilog2 x - 23)) \<le> 2 ^ 24"
    by (simp only: rne_of_int)
qed

lemma fl32_pos_bounds:
  assumes "0 < x"
  shows "2 powi (ilog2 x) \<le> fl32 x" and "fl32 x \<le> 2 powi (ilog2 x + 1)"
proof -
  let ?u = "(2::rat) powi (ilog2 x - 23)"
  let ?m = "rne (x / ?u)"
  have u: "0 < ?u"
    by simp
  have "(of_int (2 ^ 23) :: rat) \<le> of_int ?m"
    using rne_scaled_bounds(1) [OF assms] by (simp only: of_int_le_iff)
  then have "2 ^ 23 * ?u \<le> of_int ?m * ?u"
    using u by simp
  then show "2 powi (ilog2 x) \<le> fl32 x"
    by (simp only: ulp_times fl32_pos [OF assms])
  have "(of_int ?m :: rat) \<le> of_int (2 ^ 24)"
    using rne_scaled_bounds(2) [OF assms] by (simp only: of_int_le_iff)
  then have "of_int ?m * ?u \<le> 2 ^ 24 * ?u"
    using u by simp
  then show "fl32 x \<le> 2 powi (ilog2 x + 1)"
    by (simp only: ulp_times' fl32_pos [OF assms])
qed

lemma fl32_0: "fl32 0 = 0"
  by (simp add: fl32_def)

lemma fl32_pos_gt0: "0 < x \<Longrightarrow> 0 < fl32 x"
  using fl32_pos_bounds(1) [of x] zero_less_power_int [of "2::rat" "ilog2 x"]
  by linarith

lemma fl32_minus: "fl32 (- x) = - fl32 x"
  by (simp add: fl32_def Let_def rne_minus)

lemma fl32_mono_pos:
  assumes "0 < x" "x \<le> y"
  shows "fl32 x \<le> fl32 y"
proof (cases "ilog2 x = ilog2 y")
  case True
  let ?u = "(2::rat) powi (ilog2 y - 23)"
  have y: "0 < y"
    using assms by simp
  have "x / ?u \<le> y / ?u"
    using assms(2) by (simp add: divide_right_mono)
  then have "rne (x / ?u) \<le> rne (y / ?u)"
    by (rule rne_mono)
  then have "(of_int (rne (x / ?u)) :: rat) * ?u \<le> of_int (rne (y / ?u)) * ?u"
    by simp
  then show ?thesis
    by (simp only: fl32_pos [OF assms(1)] fl32_pos [OF y] True)
next
  case False
  have y: "0 < y"
    using assms by simp
  have "ilog2 x + 1 \<le> ilog2 y"
    using False ilog2_mono [OF assms] by simp
  then have "(2::rat) powi (ilog2 x + 1) \<le> 2 powi (ilog2 y)"
    by (intro power_int_increasing) simp_all
  then show ?thesis
    using fl32_pos_bounds(2) [OF assms(1)] fl32_pos_bounds(1) [OF y] by linarith
qed

lemma fl32_mono:
  assumes "x \<le> y"
  shows "fl32 x \<le> fl32 y"
proof -
  consider "0 < x" | "x = 0" "y = 0" | "x = 0" "0 < y" | "x < 0" "0 \<le> y" | "x < 0" "y < 0"
    using assms by linarith
  then show ?thesis
  proof cases
    case 1
    then show ?thesis
      using assms by (rule fl32_mono_pos)
  next
    case 2
    then show ?thesis
      by simp
  next
    case 3
    then show ?thesis
      using fl32_pos_gt0 [of y] by (simp add: fl32_0)
  next
    case 4
    have "0 < fl32 (- x)"
      using 4 by (intro fl32_pos_gt0) simp
    then have "fl32 x < 0"
      by (simp add: fl32_minus)
    moreover have "0 \<le> fl32 y"
      using 4 fl32_pos_gt0 [of y] by (cases "y = 0") (simp_all add: fl32_0)
    ultimately show ?thesis
      by simp
  next
    case 5
    have "fl32 (- y) \<le> fl32 (- x)"
      using 5 assms by (intro fl32_mono_pos) simp_all
    then show ?thesis
      by (simp add: fl32_minus)
  qed
qed


lemma fl32_exact:
  assumes "0 < x" "x / 2 powi (ilog2 x - 23) = of_int m"
  shows "fl32 x = x"
proof -
  have "fl32 x = of_int m * 2 powi (ilog2 x - 23)"
    by (simp only: fl32_pos [OF assms(1)] assms(2) rne_of_int)
  also have "\<dots> = x"
    by (simp add: assms(2) [symmetric])
  finally show ?thesis .
qed

lemma fl32_of_int_pos:
  assumes "0 < k" "k \<le> 2 ^ 24"
  shows "fl32 (of_int k) = of_int k"
proof -
  let ?x = "of_int k :: rat"
  let ?l = "ilog2 ?x"
  have x: "0 < ?x"
    using assms by simp
  have le: "?x \<le> 2 ^ 24"
    using assms(2) by (metis of_int_le_iff of_int_numeral of_int_power)
  have l: "?l \<le> 24"
  proof (rule ccontr)
    assume "\<not> ?l \<le> 24"
    then have "(2::rat) powi 25 \<le> 2 powi ?l"
      by (intro power_int_increasing) simp_all
    then show False
      using ilog2_bounds [OF x] le by simp
  qed
  show ?thesis
  proof (cases "?l = 24")
    case True
    then have "2 ^ 24 \<le> ?x"
      using ilog2_bounds [OF x] by simp
    then have "(of_int (2 ^ 24) :: rat) \<le> of_int k"
      by simp
    then have "2 ^ 24 \<le> k"
      by (simp only: of_int_le_iff)
    then have eq: "k = 2 ^ 24"
      using assms(2) by simp
    have "?x / 2 powi (?l - 23) = of_int (2 ^ 23)"
      by (simp add: True) (simp add: eq)
    then show ?thesis
      by (rule fl32_exact [OF x])
  next
    case False
    then have n: "0 \<le> 23 - ?l"
      using l by simp
    have "(2::rat) powi (?l - 23) = inverse (2 powi (23 - ?l))"
      by (simp add: power_int_minus [symmetric])
    also have "\<dots> = inverse (2 ^ nat (23 - ?l))"
      using n by (simp add: power_int_def)
    finally have "?x / 2 powi (?l - 23) = of_int (k * 2 ^ nat (23 - ?l))"
      by (simp add: field_simps)
    then show ?thesis
      by (rule fl32_exact [OF x])
  qed
qed

lemma fl32_of_int:
  assumes "\<bar>k\<bar> \<le> 2 ^ 24"
  shows "fl32 (of_int k) = of_int k"
proof -
  consider "0 < k" | "k = 0" | "k < 0"
    by linarith
  then show ?thesis
  proof cases
    case 1
    then show ?thesis
      using assms by (intro fl32_of_int_pos) simp_all
  next
    case 2
    then show ?thesis
      by (simp add: fl32_0)
  next
    case 3
    then have "fl32 (of_int (- k)) = of_int (- k)"
      using assms by (intro fl32_of_int_pos) simp_all
    then show ?thesis
      by (simp add: fl32_minus)
  qed
qed

lemma float_of_int_exact: "\<bar>k\<bar> \<le> 2 ^ 24 \<Longrightarrow> float_of_int k = of_int k"
  by (simp add: float_of_int_def fl32_of_int)

lemma float_of_int_mono: "i \<le> k \<Longrightarrow> float_of_int i \<le> float_of_int k"
  by (simp add: float_of_int_def fl32_mono)

lemma int_of_float_of_int: "int_of_float (of_int k) = k"
  by (simp add: int_of_float_def)

lemma int_of_float_mono:
  assumes "x \<le> y"
  shows "int_of_float x \<le> int_of_float y"
proof -
  consider "0 \<le> x" | "x < 0" "0 \<le> y" | "y < 0"
    by linarith
  then show ?thesis
  proof cases
    case 1
    then show ?thesis
      using assms by (simp add: int_of_float_def floor_mono)
  next
    case 2
    then have "\<lceil>x\<rceil> \<le> 0" "0 \<le> \<lfloor>y\<rfloor>"
      by (simp_all add: ceiling_le_iff)
    then have "\<lceil>x\<rceil> \<le> \<lfloor>y\<rfloor>"
      by (rule order_trans)
    then show ?thesis
      using 2 by (simp add: int_of_float_def)
  next
    case 3
    then show ?thesis
      using assms by (simp add: int_of_float_def ceiling_mono)
  qed
qed

section \<open>Further facts about the operations\<close>

lemma clampAngle_range: "lo \<le> hi \<Longrightarrow> lo \<le> clampAngle v lo hi \<and> clampAngle v lo hi \<le> hi"
  by (simp add: clampAngle_def)

lemma stepCount_0: "stepSize \<noteq> 0 \<Longrightarrow> stepCount 0 stepSize = Inr 1"
  by (simp add: stepCount_def signed_divide_int_def)

lemma maxDelta_same: "maxDelta (deltas p p) = 0"
  by (simp add: maxDelta_def deltas_def max5_def)

lemma fdiv_1_1: "fdiv (float_of_int 1) (float_of_int 1) = 1"
  using fl32_of_int [of 1] by (simp add: fdiv_def float_of_int_def)

lemma interpolate_rest:
  "sk = Debug_Sketch \<or> small a \<Longrightarrow> interpolate sk a 0 1 = a"
  using fl32_of_int [of a] int_of_float_of_int [of a] int_of_float_of_int [of 0]
  by (cases sk)
     (auto simp add: interpolate_def small_def fadd_def fmul_def float_of_int_def fl32_0)

lemma intermediatePose_rest:
  assumes "sk = Debug_Sketch \<or> small_pose p"
  shows "intermediatePose sk p (deltas p p) 1 1 = p"
  using assms 
  by (auto simp add: intermediatePose_def fdiv_1_1 deltas_def interpolate_rest small_pose_def)


section \<open>Monotonicity and range of the interpolation\<close>

lemma float_of_int_nonneg: "0 \<le> d \<Longrightarrow> 0 \<le> float_of_int d"
  using float_of_int_mono [of 0 d] by (simp add: float_of_int_def fl32_0)

lemma float_of_int_nonpos: "d \<le> 0 \<Longrightarrow> float_of_int d \<le> 0"
  using float_of_int_mono [of d 0] by (simp add: float_of_int_def fl32_0)

lemma float_of_int_ge1: "1 \<le> n \<Longrightarrow> 1 \<le> float_of_int n"
  using float_of_int_mono [of 1 n] float_of_int_exact [of 1] by simp

lemma fraction_mono:
  assumes "1 \<le> n" "i \<le> k"
  shows "fdiv (float_of_int i) (float_of_int n) \<le> fdiv (float_of_int k) (float_of_int n)"
proof -
  have "0 < float_of_int n"
    using float_of_int_ge1 [OF assms(1)] by simp
  then have "float_of_int i / float_of_int n \<le> float_of_int k / float_of_int n"
    using float_of_int_mono [OF assms(2)] by (simp add: divide_right_mono)
  then show ?thesis
    unfolding fdiv_def by (rule fl32_mono)
qed

lemma fraction_range:
  assumes "1 \<le> i" "i \<le> n"
  shows "0 \<le> fdiv (float_of_int i) (float_of_int n)" and "fdiv (float_of_int i) (float_of_int n) \<le> 1"
proof -
  have n: "1 \<le> n"
    using assms by simp
  have pos: "0 < float_of_int n" "0 < float_of_int i"
    using float_of_int_ge1 [OF n] float_of_int_ge1 [OF assms(1)] by simp_all
  then have "0 \<le> float_of_int i / float_of_int n"
    by simp
  then have "fl32 0 \<le> fl32 (float_of_int i / float_of_int n)"
    by (rule fl32_mono)
  then show "0 \<le> fdiv (float_of_int i) (float_of_int n)"
    by (simp add: fdiv_def fl32_0)
  have "float_of_int i / float_of_int n \<le> 1"
    using pos float_of_int_mono [OF assms(2)] by simp
  then have "fl32 (float_of_int i / float_of_int n) \<le> fl32 (of_int 1)"
    unfolding of_int_1 by (rule fl32_mono)
  then show "fdiv (float_of_int i) (float_of_int n) \<le> 1"
    using fl32_of_int [of 1] by (simp add: fdiv_def)
qed

lemma interpolate_mono_up:
  assumes "0 \<le> d" "t \<le> t'"
  shows "interpolate sk a d t \<le> interpolate sk a d t'"
proof -
  have "float_of_int d * t \<le> float_of_int d * t'"
    using float_of_int_nonneg [OF assms(1)] assms(2) by (rule mult_left_mono [rotated])
  then have p: "fmul (float_of_int d) t \<le> fmul (float_of_int d) t'"
    unfolding fmul_def by (rule fl32_mono)
  show ?thesis
  proof (cases sk)
    case Main_Code
    have "fadd (float_of_int a) (fmul (float_of_int d) t) \<le> fadd (float_of_int a) (fmul (float_of_int d) t')"
      unfolding fadd_def using p by (intro fl32_mono) simp
    then show ?thesis
      by (simp add: interpolate_def Main_Code int_of_float_mono)
  next
    case Debug_Sketch
    then show ?thesis
      using p by (simp add: interpolate_def int_of_float_mono)
  qed
qed

lemma interpolate_mono_down:
  assumes "d \<le> 0" "t \<le> t'"
  shows "interpolate sk a d t' \<le> interpolate sk a d t"
proof -
  have "float_of_int d * t' \<le> float_of_int d * t"
    using float_of_int_nonpos [OF assms(1)] assms(2) by (rule mult_left_mono_neg [rotated])
  then have p: "fmul (float_of_int d) t' \<le> fmul (float_of_int d) t"
    unfolding fmul_def by (rule fl32_mono)
  show ?thesis
  proof (cases sk)
    case Main_Code
    have "fadd (float_of_int a) (fmul (float_of_int d) t') \<le> fadd (float_of_int a) (fmul (float_of_int d) t)"
      unfolding fadd_def using p by (intro fl32_mono) simp
    then show ?thesis
      by (simp add: interpolate_def Main_Code int_of_float_mono)
  next
    case Debug_Sketch
    then show ?thesis
      using p by (simp add: interpolate_def int_of_float_mono)
  qed
qed

lemma product_range_up:
  assumes "0 \<le> d" "small d" "0 \<le> t" "t \<le> 1"
  shows "0 \<le> fmul (float_of_int d) t" and "fmul (float_of_int d) t \<le> of_int d"
proof -
  have d: "float_of_int d = of_int d"
    using assms(2) by (simp add: small_def float_of_int_exact)
  have "0 \<le> of_int d * t"
    using assms(1,3) by simp
  then have "fl32 0 \<le> fl32 (of_int d * t)"
    by (rule fl32_mono)
  then show "0 \<le> fmul (float_of_int d) t"
    by (simp add: fmul_def d fl32_0)
  have "of_int d * t \<le> of_int d * 1"
    using assms(1,4) by (intro mult_left_mono) simp_all
  then have "fl32 (of_int d * t) \<le> fl32 (of_int d)"
    using fl32_mono [of "of_int d * t" "of_int d"] by simp
  then show "fmul (float_of_int d) t \<le> of_int d"
    using assms(2) by (simp add: fmul_def d small_def fl32_of_int)
qed

lemma product_range_down:
  assumes "d \<le> 0" "small d" "0 \<le> t" "t \<le> 1"
  shows "of_int d \<le> fmul (float_of_int d) t" and "fmul (float_of_int d) t \<le> 0"
proof -
  have d: "float_of_int d = of_int d"
    using assms(2) by (simp add: small_def float_of_int_exact)
  have "of_int d * t \<le> 0"
    using assms(1,3) by (simp add: mult_nonpos_nonneg)
  then have "fl32 (of_int d * t) \<le> fl32 0"
    by (rule fl32_mono)
  then show "fmul (float_of_int d) t \<le> 0"
    by (simp add: fmul_def d fl32_0)
  have "of_int d * 1 \<le> of_int d * t"
    using assms(1,4) by (intro mult_left_mono_neg) simp_all
  then have "fl32 (of_int d) \<le> fl32 (of_int d * t)"
    using fl32_mono [of "of_int d" "of_int d * t"] by simp
  then show "of_int d \<le> fmul (float_of_int d) t"
    using assms(2) by (simp add: fmul_def d small_def fl32_of_int)
qed

lemma interpolate_between:
  assumes "small d" "sk = Debug_Sketch \<or> small a \<and> small (a + d)"
    and x: "of_int lo \<le> fmul (float_of_int d) t" "fmul (float_of_int d) t \<le> of_int hi"
    and l: "lo = 0 \<or> lo = d" and h: "hi = 0 \<or> hi = d"
  shows "a + lo \<le> interpolate sk a d t \<and> interpolate sk a d t \<le> a + hi"
proof (cases sk)
  case Debug_Sketch
  have "int_of_float (of_int lo) \<le> int_of_float (fmul (float_of_int d) t)"
       "int_of_float (fmul (float_of_int d) t) \<le> int_of_float (of_int hi)"
    using x by (simp_all only: int_of_float_mono)
  then show ?thesis
    by (simp add: interpolate_def Debug_Sketch int_of_float_of_int)
next
  case Main_Code
  then have s: "\<bar>a\<bar> \<le> 2 ^ 24" "\<bar>a + d\<bar> \<le> 2 ^ 24"
    using assms(2) by (simp_all add: small_def)
  have a: "float_of_int a = of_int a"
    using s(1) by (rule float_of_int_exact)
  have sl: "\<bar>a + lo\<bar> \<le> 2 ^ 24" and sh: "\<bar>a + hi\<bar> \<le> 2 ^ 24"
    using s l h by auto
  have "fl32 (of_int (a + lo)) \<le> fadd (float_of_int a) (fmul (float_of_int d) t)"
    unfolding fadd_def a using x(1) by (intro fl32_mono) simp
  then have 1: "of_int (a + lo) \<le> fadd (float_of_int a) (fmul (float_of_int d) t)"
    by (simp only: fl32_of_int [OF sl])
  have "fadd (float_of_int a) (fmul (float_of_int d) t) \<le> fl32 (of_int (a + hi))"
    unfolding fadd_def a using x(2) by (intro fl32_mono) simp
  then have 2: "fadd (float_of_int a) (fmul (float_of_int d) t) \<le> of_int (a + hi)"
    by (simp only: fl32_of_int [OF sh])
  have "int_of_float (of_int (a + lo)) \<le> int_of_float (fadd (float_of_int a) (fmul (float_of_int d) t))"
       "int_of_float (fadd (float_of_int a) (fmul (float_of_int d) t)) \<le> int_of_float (of_int (a + hi))"
    using 1 2 by (simp_all only: int_of_float_mono)
  then show ?thesis
    by (simp only: interpolate_def Main_Code int_of_float_of_int sketch.case) 
qed

lemma interpolate_between_up:
  assumes "0 \<le> d" "small d" "sk = Debug_Sketch \<or> small a \<and> small (a + d)" "0 \<le> t" "t \<le> 1"
  shows "a \<le> interpolate sk a d t \<and> interpolate sk a d t \<le> a + d"
  using interpolate_between [OF assms(2,3), of 0 t d] product_range_up [OF assms(1,2,4,5)]
  by simp

lemma interpolate_between_down:
  assumes "d \<le> 0" "small d" "sk = Debug_Sketch \<or> small a \<and> small (a + d)" "0 \<le> t" "t \<le> 1"
  shows "a + d \<le> interpolate sk a d t \<and> interpolate sk a d t \<le> a"
  using interpolate_between [OF assms(2,3), of d t 0] product_range_down [OF assms(1,2,4,5)]
  by simp

section \<open>Rounding error of the interpolation\<close>

lemma rne_error: "\<bar>of_int (rne x) - x\<bar> \<le> 1 / 2"
proof -
  define r where "r = x - of_int \<lfloor>x\<rfloor>"
  have r: "0 \<le> r" "r < 1"
    unfolding r_def by linarith+
  have x: "x = of_int \<lfloor>x\<rfloor> + r"
    by (simp add: r_def)
  consider "r < 1 / 2" | "1 / 2 < r" | "r = 1 / 2"
    by linarith
  then show ?thesis
  proof cases
    case 1
    then have "rne x = \<lfloor>x\<rfloor>"
      by (simp add: rne_def Let_def r_def)
    then show ?thesis
      using 1 r by (simp add: r_def)
  next
    case 2
    then have "rne x = \<lfloor>x\<rfloor> + 1"
      by (simp add: rne_def Let_def r_def)
    then have "of_int (rne x) - x = 1 - r"
      by (simp add: r_def)
    then show ?thesis
      using 2 r by simp
  next
    case 3
    then have "rne x = \<lfloor>x\<rfloor> \<or> rne x = \<lfloor>x\<rfloor> + 1"
      by (simp add: rne_def Let_def r_def)
    then have "of_int (rne x) - x = - r \<or> of_int (rne x) - x = 1 - r"
      by (auto simp add: r_def)
    then show ?thesis
      using 3 by auto
  qed
qed

lemma fl32_error_pos:
  assumes "0 < x"
  shows "\<bar>fl32 x - x\<bar> \<le> x / 2 ^ 24"
proof -
  let ?u = "(2::rat) powi (ilog2 x - 23)"
  have u: "0 < ?u"
    by simp
  have "fl32 x - x = (of_int (rne (x / ?u)) - x / ?u) * ?u"
    using u by (simp add: fl32_pos [OF assms] algebra_simps)
  then have "\<bar>fl32 x - x\<bar> = \<bar>of_int (rne (x / ?u)) - x / ?u\<bar> * ?u"
    using u by (simp add: abs_mult)
  also have "\<dots> \<le> 1 / 2 * ?u"
    using rne_error [of "x / ?u"] u by (intro mult_right_mono) simp_all
  also have "\<dots> = 2 ^ 23 * ?u / 2 ^ 24"
    by simp
  also have "\<dots> \<le> x / 2 ^ 24"
    using ilog2_bounds [OF assms] by (simp only: ulp_times) (simp add: divide_right_mono)
  finally show ?thesis .
qed

lemma fl32_error: "\<bar>fl32 x - x\<bar> \<le> \<bar>x\<bar> / 2 ^ 24"
proof -
  consider "0 < x" | "x = 0" | "x < 0"
    by linarith
  then show ?thesis
  proof cases
    case 1
    then show ?thesis
      using fl32_error_pos [of x] by simp
  next
    case 2
    then show ?thesis
      by (simp add: fl32_0)
  next
    case 3
    then have "\<bar>fl32 (- x) - (- x)\<bar> \<le> (- x) / 2 ^ 24"
      by (intro fl32_error_pos) simp
    moreover have "\<bar>fl32 (- x) - (- x)\<bar> = \<bar>fl32 x - x\<bar>"
      by (simp add: fl32_minus)
    ultimately show ?thesis
      using 3 by simp
  qed
qed

lemma int_of_float_add1: "int_of_float (y + 1) \<le> int_of_float y + 1"
proof -
  have "\<lfloor>y\<rfloor> \<le> \<lceil>y\<rceil>"
    by (rule floor_le_ceiling)
  then show ?thesis
    by (auto simp add: int_of_float_def)
qed

lemma int_of_float_close:
  assumes "\<bar>x - y\<bar> \<le> 1"
  shows "\<bar>int_of_float x - int_of_float y\<bar> \<le> 1"
proof -
  have "x \<le> y + 1" "y \<le> x + 1"
    using assms by linarith+
  then have "int_of_float x \<le> int_of_float (y + 1)" "int_of_float y \<le> int_of_float (x + 1)"
    by (simp_all only: int_of_float_mono)
  then show ?thesis
    using int_of_float_add1 [of x] int_of_float_add1 [of y] by linarith
qed

lemma product_error:
  assumes "1 \<le> i" "i \<le> n" "n \<le> 2 ^ 24" "small d"
  shows "\<bar>fmul (float_of_int d) (fdiv (float_of_int i) (float_of_int n))
          - of_int d * (of_int i / of_int n)\<bar> \<le> \<bar>of_int d\<bar> / 2 ^ 23"
proof -
  let ?q = "of_int i / of_int n :: rat"
  let ?t = "fl32 ?q"
  let ?D = "of_int d :: rat"
  have fi: "float_of_int i = of_int i" and fn: "float_of_int n = of_int n"
    and fd: "float_of_int d = ?D"
    using assms by (simp_all add: float_of_int_exact small_def)
  have t: "fdiv (float_of_int i) (float_of_int n) = ?t"
    by (simp add: fdiv_def fi fn)
  have q: "0 \<le> ?q" "?q \<le> 1"
    using assms by simp_all
  have t01: "0 \<le> ?t" "?t \<le> 1"
    using fraction_range [OF assms(1,2)] by (simp_all add: t)
  have e1: "\<bar>?t - ?q\<bar> \<le> 1 / 2 ^ 24"
  proof -
    have "\<bar>?t - ?q\<bar> \<le> \<bar>?q\<bar> / 2 ^ 24"
      by (rule fl32_error)
    also have "\<dots> \<le> 1 / 2 ^ 24"
      using q by (simp add: divide_right_mono)
    finally show ?thesis .
  qed
  have e2: "\<bar>fl32 (?D * ?t) - ?D * ?t\<bar> \<le> \<bar>?D\<bar> / 2 ^ 24"
  proof -
    have "\<bar>fl32 (?D * ?t) - ?D * ?t\<bar> \<le> \<bar>?D * ?t\<bar> / 2 ^ 24"
      by (rule fl32_error)
    also have "\<bar>?D * ?t\<bar> = \<bar>?D\<bar> * ?t"
      using t01 by (simp add: abs_mult)
    also have "\<bar>?D\<bar> * ?t / 2 ^ 24 \<le> \<bar>?D\<bar> * 1 / 2 ^ 24"
      using t01 by (intro divide_right_mono mult_left_mono) simp_all
    finally show ?thesis
      by simp
  qed
  have e3: "\<bar>?D * ?t - ?D * ?q\<bar> \<le> \<bar>?D\<bar> / 2 ^ 24"
  proof -
    have "\<bar>?D * ?t - ?D * ?q\<bar> = \<bar>?D\<bar> * \<bar>?t - ?q\<bar>"
      by (simp add: abs_mult [symmetric] right_diff_distrib)
    also have "\<dots> \<le> \<bar>?D\<bar> * (1 / 2 ^ 24)"
      using e1 by (intro mult_left_mono) simp_all
    finally show ?thesis
      by simp
  qed
  have "\<bar>fl32 (?D * ?t) - ?D * ?q\<bar> \<le> \<bar>?D\<bar> / 2 ^ 24 + \<bar>?D\<bar> / 2 ^ 24"
    using e2 e3 by linarith
  also have "\<dots> = \<bar>?D\<bar> / 2 ^ 23"
    by simp
  finally show ?thesis
    by (simp add: fmul_def fd t)
qed

lemma of_int_abs_le: "\<bar>d\<bar> \<le> 2 ^ m \<Longrightarrow> \<bar>of_int d :: rat\<bar> \<le> 2 ^ m"
  by (metis of_int_abs of_int_le_iff of_int_numeral of_int_power)

lemma interpolate_Debug_close:
  assumes "1 \<le> i" "i \<le> n" "n \<le> 2 ^ 24" "\<bar>d\<bar> \<le> 2 ^ 23"
  shows "\<bar>interpolate Debug_Sketch a d (fdiv (float_of_int i) (float_of_int n))
          - (a + int_of_float (of_int d * (of_int i / of_int n)))\<bar> \<le> 1"
proof -
  have s: "small d"
    using assms(4) by (simp add: small_def)
  have "\<bar>of_int d :: rat\<bar> / 2 ^ 23 \<le> 1"
    using of_int_abs_le [OF assms(4)] by simp
  then have "\<bar>fmul (float_of_int d) (fdiv (float_of_int i) (float_of_int n))
          - of_int d * (of_int i / of_int n)\<bar> \<le> 1"
    using product_error [OF assms(1-3) s] by linarith
  then show ?thesis
    using int_of_float_close by (simp add: interpolate_def)
qed

lemma int_of_float_shift: "\<bar>int_of_float (of_int a + y) - (a + int_of_float y)\<bar> \<le> 1"
proof -
  have "\<lfloor>of_int a + y\<rfloor> = a + \<lfloor>y\<rfloor>"
    by simp
  moreover have "\<lceil>of_int a + y\<rceil> = a + \<lceil>y\<rceil>"
    using ceiling_add_of_int [of y a] by (simp add: add.commute)
  moreover have "\<lfloor>y\<rfloor> \<le> \<lceil>y\<rceil>" "\<lceil>y\<rceil> \<le> \<lfloor>y\<rfloor> + 1"
    by linarith+
  ultimately show ?thesis
    by (auto simp add: int_of_float_def)
qed

lemma interpolate_Main_close:
  assumes "1 \<le> i" "i \<le> n" "n \<le> 2 ^ 24" "\<bar>a\<bar> \<le> 2 ^ 22" "\<bar>d\<bar> \<le> 2 ^ 22"
  shows "\<bar>interpolate Main_Code a d (fdiv (float_of_int i) (float_of_int n))
          - (a + int_of_float (of_int d * (of_int i / of_int n)))\<bar> \<le> 2"
proof -
  let ?t = "fdiv (float_of_int i) (float_of_int n)"
  let ?p = "fmul (float_of_int d) ?t"
  let ?y = "of_int d * (of_int i / of_int n) :: rat"
  have sd: "small d" and sa: "small a"
    using assms(4,5) by (simp_all add: small_def)
  have fa: "float_of_int a = of_int a"
    using assms(4) by (simp add: float_of_int_exact)
  have t01: "0 \<le> ?t" "?t \<le> 1"
    using fraction_range [OF assms(1,2)] by simp_all
  have D: "\<bar>of_int d :: rat\<bar> \<le> 2 ^ 22" and A: "\<bar>of_int a :: rat\<bar> \<le> 2 ^ 22"
    using of_int_abs_le [OF assms(5)] of_int_abs_le [OF assms(4)] by simp_all
  have "\<bar>?p - ?y\<bar> \<le> \<bar>of_int d\<bar> / 2 ^ 23"
    by (rule product_error [OF assms(1-3) sd])
  then have e1: "\<bar>?p - ?y\<bar> \<le> 1 / 2"
    using D by simp
  have "\<bar>?p\<bar> \<le> \<bar>of_int d\<bar>"
    using product_range_up [OF _ sd t01] product_range_down [OF _ sd t01]
    by (cases "0 \<le> d") simp_all
  then have "\<bar>of_int a + ?p\<bar> \<le> 2 ^ 23"
    using A D by simp
  moreover have "\<bar>fl32 (of_int a + ?p) - (of_int a + ?p)\<bar> \<le> \<bar>of_int a + ?p\<bar> / 2 ^ 24"
    by (rule fl32_error)
  ultimately have e2: "\<bar>fl32 (of_int a + ?p) - (of_int a + ?p)\<bar> \<le> 1 / 2"
    by simp
  have "\<bar>fl32 (of_int a + ?p) - (of_int a + ?y)\<bar> \<le> 1"
    using e1 e2 by linarith
  then have "\<bar>int_of_float (fl32 (of_int a + ?p)) - int_of_float (of_int a + ?y)\<bar> \<le> 1"
    by (rule int_of_float_close)
  then show ?thesis
    using int_of_float_shift [of a ?y]
    by (simp add: interpolate_def fadd_def fa)
qed

section \<open>Joints of the intermediate poses\<close>

lemma intermediatePose_joint:
  "f \<in> set joints \<Longrightarrow>
   f (intermediatePose sk start delta steps i) =
     interpolate sk (f start) (f delta) (fdiv (float_of_int i) (float_of_int steps))"
  by (auto simp add: joints_def intermediatePose_def Let_def)

lemma deltas_joint: "f \<in> set joints \<Longrightarrow> f (deltas start target) = f target - f start"
  by (auto simp add: joints_def deltas_def)

section \<open>The range of \<^verbatim>\<open>int\<close>\<close>

lemma fl32_2p29: "fl32 (2 ^ 29) = 2 ^ 29"
  by code_simp

lemma fl32_2p30: "fl32 (2 ^ 30) = 2 ^ 30"
  by code_simp

lemma fl32_3_2p29: "fl32 (3 * 2 ^ 29) = 3 * 2 ^ 29"
  by code_simp

lemma fl32_abs_le:
  assumes "\<bar>x\<bar> \<le> c" "fl32 c = c"
  shows "\<bar>fl32 x\<bar> \<le> c"
proof -
  have "fl32 (- c) \<le> fl32 x" "fl32 x \<le> fl32 c"
    using assms(1) by (intro fl32_mono; linarith)+
  then show ?thesis
    by (simp add: fl32_minus assms(2) abs_le_iff)
qed

lemma joint_bounded: "f \<in> set joints \<Longrightarrow> bounded_pose p \<Longrightarrow> bounded (f p)"
  by (auto simp add: joints_def bounded_pose_def)

lemma bounded_delta:
  assumes "bounded a" "bounded b"
  shows "\<bar>b - a\<bar> \<le> 2 ^ 30" and "int32 (b - a)" and "int32 \<bar>b - a\<bar>"
  using assms by (simp_all add: bounded_def int32_def) linarith+

lemma product_bound:
  assumes "\<bar>d\<bar> \<le> 2 ^ 30" "0 \<le> t" "t \<le> 1"
  shows "\<bar>fmul (float_of_int d) t\<bar> \<le> 2 ^ 30"
proof -
  have "\<bar>of_int d :: rat\<bar> \<le> 2 ^ 30"
    using assms(1) by (rule of_int_abs_le)
  then have D: "\<bar>float_of_int d\<bar> \<le> 2 ^ 30"
    unfolding float_of_int_def by (rule fl32_abs_le) (rule fl32_2p30)
  have "\<bar>float_of_int d * t\<bar> = \<bar>float_of_int d\<bar> * t"
    using assms(2) by (simp add: abs_mult)
  also have "\<dots> \<le> \<bar>float_of_int d\<bar> * 1"
    using assms(3) by (intro mult_left_mono) simp_all
  finally have "\<bar>float_of_int d * t\<bar> \<le> 2 ^ 30"
    using D by simp
  then show ?thesis
    unfolding fmul_def by (rule fl32_abs_le) (rule fl32_2p30)
qed

lemma int_of_float_abs_le:
  assumes "\<bar>x\<bar> \<le> of_int c"
  shows "\<bar>int_of_float x\<bar> \<le> c"
proof -
  have "of_int (- c) \<le> x" "x \<le> of_int c"
    using assms by (simp_all add: abs_le_iff)
  then have "int_of_float (of_int (- c)) \<le> int_of_float x" "int_of_float x \<le> int_of_float (of_int c)"
    by (simp_all only: int_of_float_mono)
  then show ?thesis
    by (simp only: int_of_float_of_int abs_le_iff) simp
qed

lemma sum_bound:
  assumes "bounded a" "\<bar>p\<bar> \<le> 2 ^ 30"
  shows "\<bar>fadd (float_of_int a) p\<bar> \<le> 3 * 2 ^ 29"
proof -
  have "\<bar>of_int a :: rat\<bar> \<le> 2 ^ 29"
    using assms(1) unfolding bounded_def by (rule of_int_abs_le)
  then have "\<bar>float_of_int a\<bar> \<le> 2 ^ 29"
    unfolding float_of_int_def by (rule fl32_abs_le) (rule fl32_2p29)
  then have "\<bar>float_of_int a + p\<bar> \<le> 3 * 2 ^ 29"
    using assms(2) by simp
  then show ?thesis
    unfolding fadd_def by (rule fl32_abs_le) (rule fl32_3_2p29)
qed

lemma interpolate_no_overflow:
  assumes "bounded a" "bounded b" "0 \<le> t" "t \<le> 1"
  shows "int32 (b - a)"
    and "convertible (fmul (float_of_int (b - a)) t)"
    and "convertible (fadd (float_of_int a) (fmul (float_of_int (b - a)) t))"
    and "int32 (int_of_float (fmul (float_of_int (b - a)) t))"
    and "int32 (interpolate sk a (b - a) t)"
proof -
  let ?p = "fmul (float_of_int (b - a)) t"
  let ?s = "fadd (float_of_int a) ?p"
  have p: "\<bar>?p\<bar> \<le> 2 ^ 30"
    using bounded_delta(1) [OF assms(1,2)] assms(3,4) by (rule product_bound)
  have s: "\<bar>?s\<bar> \<le> 3 * 2 ^ 29"
    using assms(1) p by (rule sum_bound)
  show "int32 (b - a)"
    using assms(1,2) by (rule bounded_delta)
  show "convertible ?p"
    using p by (simp add: convertible_def abs_le_iff)
  show "convertible ?s"
    using s by (simp add: convertible_def abs_le_iff)
  have "\<bar>?p\<bar> \<le> of_int (2 ^ 30)"
    using p by simp
  then have ip: "\<bar>int_of_float ?p\<bar> \<le> 2 ^ 30"
    by (rule int_of_float_abs_le)
  then show "int32 (int_of_float ?p)"
    by (simp add: int32_def) linarith
  have "\<bar>?s\<bar> \<le> of_int (3 * 2 ^ 29)"
    using s by simp
  then have "\<bar>int_of_float ?s\<bar> \<le> 3 * 2 ^ 29"
    by (rule int_of_float_abs_le)
  then show "int32 (interpolate sk a (b - a) t)"
    using ip assms(1) by (cases sk) (simp_all add: interpolate_def int32_def bounded_def, linarith+)
qed

lemma max5_le: "a \<le> x \<Longrightarrow> b \<le> x \<Longrightarrow> c \<le> x \<Longrightarrow> d \<le> x \<Longrightarrow> e \<le> x \<Longrightarrow> max5 a b c d e \<le> x"
  by (simp add: max5_def Let_def)

lemma maxDelta_int32:
  assumes "bounded_pose start" "bounded_pose target"
  shows "maxDelta (deltas start target) \<le> 2 ^ 30" and "int32 (maxDelta (deltas start target))"
proof -
  have "\<bar>f target - f start\<bar> \<le> 2 ^ 30" if "f \<in> set joints" for f
    using bounded_delta(1) [OF joint_bounded [OF that assms(1)] joint_bounded [OF that assms(2)]] .
  then show "maxDelta (deltas start target) \<le> 2 ^ 30"
    unfolding maxDelta_def deltas_def by (intro max5_le) (simp_all add: joints_def)
  then show "int32 (maxDelta (deltas start target))"
    using maxDelta_nonneg [of "deltas start target"] by (simp add: int32_def)
qed

lemma steps_int32:
  assumes "0 \<le> md" "md \<le> 2 ^ 30" "stepCount md stepSize = Inr steps"
  shows "1 \<le> steps" and "steps \<le> 2 ^ 30" and "int32 (steps + 1)"
proof -
  show one: "1 \<le> steps"
    using assms(3) by (rule stepCount_ge1)
  have nz: "stepSize \<noteq> 0"
    using assms(3) by (auto simp add: stepCount_def)
  have q: "md sdiv stepSize \<le> md"
  proof (cases "0 < stepSize")
    case True
    then have "md div stepSize \<le> md div 1"
      using assms(1) by (intro zdiv_mono2) simp_all
    then show ?thesis
      using True assms(1) by (simp add: sdiv_pos)
  next
    case False
    then have "stepSize < 0"
      using nz by simp
    then show ?thesis
      using sdiv_neg [OF assms(1)] assms(1) by fastforce
  qed
  have "steps = (if md sdiv stepSize < 1 then 1 else md sdiv stepSize)"
    using assms(3) nz by (simp add: stepCount_def Let_def)
  then show le: "steps \<le> 2 ^ 30"
    using q assms(2) by (simp split: if_splits)
  show "int32 (steps + 1)"
    using one le by (simp add: int32_def)
qed

section \<open>Claims\<close>

text \<open>
  C1. For every start pose, every target pose (in range or not) and every positive step
  size, \<^verbatim>\<open>moveToPose\<close> returns, and the global \<^verbatim>\<open>currentPose\<close> is then the
  requested target, field by field: neither the truncation of the intermediate poses
  nor the clamping of the pose writer reaches it.
\<close>

theorem moveToPose_currentPose:
  assumes "0 < stepSize"
  shows "\<exists>s'. moveToPose sk cfg target ms stepSize s = Inr s' \<and> currentPose s' = target"
proof -
  from assms obtain n
    where "stepCount (maxDelta (deltas (currentPose s) target)) stepSize = Inr n"
    using stepCount_Inr [of stepSize] by blast
  then show ?thesis
    by (simp add: moveToPose_Inr)
qed

theorem moveToPose_currentPose_witness:
  "(0::int) < 2 \<and>
   (\<exists>s'. moveToPose Debug_Sketch limits_Debug_Sketch
           \<lparr>base = 200, shoulder = - 5, elbow = 90, wrist = 400, gripper = 150\<rparr> 8 2
           \<lparr>currentPose = homePose Debug_Sketch, trace = []\<rparr> = Inr s' \<and>
         currentPose s' = \<lparr>base = 200, shoulder = - 5, elbow = 90, wrist = 400, gripper = 150\<rparr>)"
  using moveToPose_currentPose [of 2 Debug_Sketch limits_Debug_Sketch
      "\<lparr>base = 200, shoulder = - 5, elbow = 90, wrist = 400, gripper = 150\<rparr>" 8
      "\<lparr>currentPose = homePose Debug_Sketch, trace = []\<rparr>"]
  by simp

text \<open>
  C2 (as stated it fails). A step size of zero is not guarded: the sketch divides by
  it. A negative step size is not treated as 1 either: the quotient is at most zero and
  the step count is forced to 1, whatever the distance.
\<close>

theorem moveToPose_stepSize_nonpositive_counterexample:
  "moveToPose Main_Code limits_Main_Code (homePose Main_Code) 10 0
     \<lparr>currentPose = homePose Main_Code, trace = []\<rparr> = Inl DivideByZero \<and>
   stepCount 100 (- 1) = Inr 1 \<and> stepCount 100 1 = Inr 100"
  by (simp add: moveToPose_def stepCount_def signed_divide_int_def)

text \<open>
  C2, amended. For every negative step size the division is defined, the step count is
  forced to exactly 1 and \<^verbatim>\<open>moveToPose\<close> returns after one turn of the loop and
  the final write.
\<close>

theorem moveToPose_negative_stepSize:
  assumes "stepSize < 0"
  shows "stepCount (maxDelta (deltas (currentPose s) target)) stepSize = Inr 1 \<and>
         moveToPose sk cfg target ms stepSize s =
           Inr \<lparr>currentPose = target,
                trace = trace s @
                  stepEvents sk cfg (currentPose s) (deltas (currentPose s) target) ms 1 1 @
                  StoreCurrentPose target # servoWrites sk cfg target\<rparr>"
proof -
  have n: "stepCount (maxDelta (deltas (currentPose s) target)) stepSize = Inr 1"
    using assms by (simp add: stepCount_neg maxDelta_nonneg)
  show ?thesis
    using n moveToPose_Inr [OF n, of sk cfg ms] by simp
qed

theorem moveToPose_negative_stepSize_witness:
  "(- 1 :: int) < 0 \<and>
   stepCount (maxDelta (deltas (currentPose \<lparr>currentPose = homePose Main_Code, trace = []\<rparr>)
       \<lparr>base = 60, shoulder = 70, elbow = 110, wrist = 80, gripper = 90\<rparr>)) (- 1) = Inr 1"
  using moveToPose_negative_stepSize [of "- 1" "\<lparr>currentPose = homePose Main_Code, trace = []\<rparr>"
      "\<lparr>base = 60, shoulder = 70, elbow = 110, wrist = 80, gripper = 90\<rparr>"]
  by simp

text \<open>
  C3 (as stated it fails). \<^verbatim>\<open>Main_Code.ino\<close> does not clamp the gripper: a pose
  with gripper 200 sends 200 to the gripper servo, outside the range of 40 to 90 that
  its open and close angles span.
\<close>

theorem writePose_gripper_counterexample:
  "trace (writePose Main_Code limits_Main_Code
            \<lparr>base = 90, shoulder = 90, elbow = 90, wrist = 90, gripper = 200\<rparr>
            \<lparr>currentPose = homePose Main_Code, trace = []\<rparr>) =
     [ServoWrite baseServo 90, ServoWrite shoulderServo 90, ServoWrite elbowServo 90,
      ServoWrite wristServo 90, ServoWrite gripperServo 200] \<and>
   \<not> 200 \<le> max (GRIPPER_OPEN limits_Main_Code) (GRIPPER_CLOSE limits_Main_Code)"
  by (simp add: writePose_def servoWrites_def emit_def clampAngle_def gripperValue_def
      limits_Main_Code_def)

text \<open>
  C3, amended. \<^verbatim>\<open>writePose\<close> issues five values, in the order base, shoulder,
  elbow, wrist, gripper. The first four are \<^verbatim>\<open>clampAngle\<close> of the field with the
  joint's minimum and maximum, and lie between them when the minimum is not above the
  maximum. The debug sketch clamps the gripper with \<^verbatim>\<open>GRIPPER_OPEN\<close> as lower and
  \<^verbatim>\<open>GRIPPER_CLOSE\<close> as upper bound, taken as they are: the value lies between them
  when open is not above close. \<^verbatim>\<open>Main_Code.ino\<close> writes the gripper field as it
  is. \<^verbatim>\<open>clampAngle\<close> returns the lower bound below it, the upper bound above it
  and the value otherwise.
\<close>

theorem writePose_clamps:
  assumes "BASE_MIN cfg \<le> BASE_MAX cfg" and "SHOULDER_MIN cfg \<le> SHOULDER_MAX cfg"
    and "ELBOW_MIN cfg \<le> ELBOW_MAX cfg" and "WRIST_MIN cfg \<le> WRIST_MAX cfg"
  shows "\<exists>b sh e w g.
      writePose sk cfg p s =
        s\<lparr>trace := trace s @
           [ServoWrite baseServo b, ServoWrite shoulderServo sh, ServoWrite elbowServo e,
            ServoWrite wristServo w, ServoWrite gripperServo g]\<rparr> \<and>
      b = clampAngle (base p) (BASE_MIN cfg) (BASE_MAX cfg) \<and>
      BASE_MIN cfg \<le> b \<and> b \<le> BASE_MAX cfg \<and>
      sh = clampAngle (shoulder p) (SHOULDER_MIN cfg) (SHOULDER_MAX cfg) \<and>
      SHOULDER_MIN cfg \<le> sh \<and> sh \<le> SHOULDER_MAX cfg \<and>
      e = clampAngle (elbow p) (ELBOW_MIN cfg) (ELBOW_MAX cfg) \<and>
      ELBOW_MIN cfg \<le> e \<and> e \<le> ELBOW_MAX cfg \<and>
      w = clampAngle (wrist p) (WRIST_MIN cfg) (WRIST_MAX cfg) \<and>
      WRIST_MIN cfg \<le> w \<and> w \<le> WRIST_MAX cfg \<and>
      g = (if sk = Main_Code then gripper p
           else clampAngle (gripper p) (GRIPPER_OPEN cfg) (GRIPPER_CLOSE cfg)) \<and>
      (sk = Debug_Sketch \<and> GRIPPER_OPEN cfg \<le> GRIPPER_CLOSE cfg \<longrightarrow>
         GRIPPER_OPEN cfg \<le> g \<and> g \<le> GRIPPER_CLOSE cfg) \<and>
      (\<forall>v lo hi. clampAngle v lo hi = (if v < lo then lo else if hi < v then hi else v))"
proof -
  have "writePose sk cfg p s =
        s\<lparr>trace := trace s @
           [ServoWrite baseServo (clampAngle (base p) (BASE_MIN cfg) (BASE_MAX cfg)),
            ServoWrite shoulderServo (clampAngle (shoulder p) (SHOULDER_MIN cfg) (SHOULDER_MAX cfg)),
            ServoWrite elbowServo (clampAngle (elbow p) (ELBOW_MIN cfg) (ELBOW_MAX cfg)),
            ServoWrite wristServo (clampAngle (wrist p) (WRIST_MIN cfg) (WRIST_MAX cfg)),
            ServoWrite gripperServo (if sk = Main_Code then gripper p
               else clampAngle (gripper p) (GRIPPER_OPEN cfg) (GRIPPER_CLOSE cfg))]\<rparr>"
    by (cases sk) (simp_all add: writePose_def servoWrites_def emit_def gripperValue_def)
  moreover have "\<forall>v lo hi. clampAngle v lo hi = (if v < lo then lo else if hi < v then hi else v)"
    by (simp add: clampAngle_def)
  ultimately show ?thesis
    using clampAngle_range [OF assms(1), of "base p"] clampAngle_range [OF assms(2), of "shoulder p"]
      clampAngle_range [OF assms(3), of "elbow p"] clampAngle_range [OF assms(4), of "wrist p"]
      clampAngle_range [of "GRIPPER_OPEN cfg" "GRIPPER_CLOSE cfg" "gripper p"]
    by (intro exI conjI) (assumption | simp | rule refl)+
qed

theorem writePose_clamps_witness:
  "BASE_MIN limits_Debug_Sketch \<le> BASE_MAX limits_Debug_Sketch \<and>
   SHOULDER_MIN limits_Debug_Sketch \<le> SHOULDER_MAX limits_Debug_Sketch \<and>
   ELBOW_MIN limits_Debug_Sketch \<le> ELBOW_MAX limits_Debug_Sketch \<and>
   WRIST_MIN limits_Debug_Sketch \<le> WRIST_MAX limits_Debug_Sketch \<and>
   GRIPPER_OPEN limits_Debug_Sketch \<le> GRIPPER_CLOSE limits_Debug_Sketch \<and>
   writePose Debug_Sketch limits_Debug_Sketch
       \<lparr>base = 200, shoulder = - 5, elbow = 90, wrist = 400, gripper = 150\<rparr>
       \<lparr>currentPose = homePose Debug_Sketch, trace = []\<rparr> =
     \<lparr>currentPose = homePose Debug_Sketch,
      trace = [ServoWrite baseServo 180, ServoWrite shoulderServo 0, ServoWrite elbowServo 90,
               ServoWrite wristServo 180, ServoWrite gripperServo 100]\<rparr>"
proof -
  have h: "BASE_MIN limits_Debug_Sketch \<le> BASE_MAX limits_Debug_Sketch"
      "SHOULDER_MIN limits_Debug_Sketch \<le> SHOULDER_MAX limits_Debug_Sketch"
      "ELBOW_MIN limits_Debug_Sketch \<le> ELBOW_MAX limits_Debug_Sketch"
      "WRIST_MIN limits_Debug_Sketch \<le> WRIST_MAX limits_Debug_Sketch"
      "GRIPPER_OPEN limits_Debug_Sketch \<le> GRIPPER_CLOSE limits_Debug_Sketch"
    by (simp_all add: limits_Debug_Sketch_def)
  from writePose_clamps [OF h(1-4), of Debug_Sketch
      "\<lparr>base = 200, shoulder = - 5, elbow = 90, wrist = 400, gripper = 150\<rparr>"
      "\<lparr>currentPose = homePose Debug_Sketch, trace = []\<rparr>"]
  obtain b sh e w g where
    run: "writePose Debug_Sketch limits_Debug_Sketch
       \<lparr>base = 200, shoulder = - 5, elbow = 90, wrist = 400, gripper = 150\<rparr>
       \<lparr>currentPose = homePose Debug_Sketch, trace = []\<rparr> =
     \<lparr>currentPose = homePose Debug_Sketch, trace = []\<rparr>\<lparr>trace :=
        trace \<lparr>currentPose = homePose Debug_Sketch, trace = []\<rparr> @
        [ServoWrite baseServo b, ServoWrite shoulderServo sh, ServoWrite elbowServo e,
         ServoWrite wristServo w, ServoWrite gripperServo g]\<rparr>"
    and v: "b = clampAngle (base \<lparr>base = 200, shoulder = - 5, elbow = 90, wrist = 400, gripper = 150\<rparr>)
              (BASE_MIN limits_Debug_Sketch) (BASE_MAX limits_Debug_Sketch)"
      "sh = clampAngle (shoulder \<lparr>base = 200, shoulder = - 5, elbow = 90, wrist = 400, gripper = 150\<rparr>)
              (SHOULDER_MIN limits_Debug_Sketch) (SHOULDER_MAX limits_Debug_Sketch)"
      "e = clampAngle (elbow \<lparr>base = 200, shoulder = - 5, elbow = 90, wrist = 400, gripper = 150\<rparr>)
              (ELBOW_MIN limits_Debug_Sketch) (ELBOW_MAX limits_Debug_Sketch)"
      "w = clampAngle (wrist \<lparr>base = 200, shoulder = - 5, elbow = 90, wrist = 400, gripper = 150\<rparr>)
              (WRIST_MIN limits_Debug_Sketch) (WRIST_MAX limits_Debug_Sketch)"
      "g = (if Debug_Sketch = Main_Code
            then gripper \<lparr>base = 200, shoulder = - 5, elbow = 90, wrist = 400, gripper = 150\<rparr>
            else clampAngle (gripper \<lparr>base = 200, shoulder = - 5, elbow = 90, wrist = 400, gripper = 150\<rparr>)
              (GRIPPER_OPEN limits_Debug_Sketch) (GRIPPER_CLOSE limits_Debug_Sketch))"
    by blast
  have "b = 180" "sh = 0" "e = 90" "w = 180" "g = 100"
    by (simp_all add: v clampAngle_def limits_Debug_Sketch_def)
  with run h show ?thesis
    by simp
qed

text \<open>
  C4 (as stated it fails). Not for every pose: from the home pose of the debug sketch
  to a shoulder of \<open>-2\<^sup>3\<^sup>1\<close>, both poses of \<^verbatim>\<open>int\<close> fields, the greatest absolute
  difference is \<open>2\<^sup>3\<^sup>1\<close>, which is not a value of \<^verbatim>\<open>int\<close>: the
  \<^verbatim>\<open>int maxDelta\<close> of the sketch cannot hold it (\<^verbatim>\<open>abs\<close> overflows).
\<close>

theorem moveToPose_steps_counterexample:
  "pose32 (homePose Debug_Sketch) \<and>
   pose32 \<lparr>base = 180, shoulder = - 2147483648, elbow = 100, wrist = 0, gripper = 0\<rparr> \<and>
   maxDelta (deltas (homePose Debug_Sketch)
     \<lparr>base = 180, shoulder = - 2147483648, elbow = 100, wrist = 0, gripper = 0\<rparr>) = 2147483648 \<and>
   \<not> int32 (maxDelta (deltas (homePose Debug_Sketch)
     \<lparr>base = 180, shoulder = - 2147483648, elbow = 100, wrist = 0, gripper = 0\<rparr>))"
  by (simp add: pose32_def int32_def maxDelta_def deltas_def max5_def limits_Debug_Sketch_def)

text \<open>
  C4, amended. For a positive step size and start and target poses whose joint values
  have magnitude at most \<open>2\<^sup>2\<^sup>9\<close>, no difference, absolute value or counter of
  \<^verbatim>\<open>moveToPose\<close> leaves the range of \<^verbatim>\<open>int\<close>; \<open>maxDelta\<close> is the greatest of
  the five absolute differences between target and start; the step count is
  \<open>n = max 1 (maxDelta div stepSize)\<close> (\<open>div\<close> rounds down); the run consists of \<open>n\<close>
  intermediate poses and the final write; and every joint of the \<open>i\<close>-th intermediate
  pose is interpolated from its own start and difference with the one fraction, the
  \<^verbatim>\<open>float\<close> quotient of \<open>i\<close> and \<open>n\<close>. From all zeros to base 100 with step size 2
  there are 50 steps, and step 25 has base 50 and shoulder 0.
\<close>

theorem moveToPose_steps:
  assumes "0 < stepSize" and "int32 stepSize"
    and "bounded_pose (currentPose s)" and "bounded_pose target"
  shows "let md = maxDelta (deltas (currentPose s) target);
             n = max 1 (md div stepSize)
         in md = Max {\<bar>base target - base (currentPose s)\<bar>,
                      \<bar>shoulder target - shoulder (currentPose s)\<bar>,
                      \<bar>elbow target - elbow (currentPose s)\<bar>,
                      \<bar>wrist target - wrist (currentPose s)\<bar>,
                      \<bar>gripper target - gripper (currentPose s)\<bar>} \<and>
            int32 md \<and>
            (\<forall>f \<in> set joints.
               f (deltas (currentPose s) target) = f target - f (currentPose s) \<and>
               int32 (f target - f (currentPose s))) \<and>
            stepCount md stepSize = Inr n \<and> int32 (n + 1) \<and>
            moveToPose sk cfg target ms stepSize s =
              Inr \<lparr>currentPose = target,
                   trace = trace s @
                     concat (map (stepEvents sk cfg (currentPose s)
                                    (deltas (currentPose s) target) ms n) [1..n]) @
                     StoreCurrentPose target # servoWrites sk cfg target\<rparr> \<and>
            (\<forall>i. \<forall>f \<in> set joints. 1 \<le> i \<and> i \<le> n \<longrightarrow>
               f (intermediatePose sk (currentPose s) (deltas (currentPose s) target) n i) =
                 interpolate sk (f (currentPose s)) (f target - f (currentPose s))
                   (fl32 (fl32 (of_int i) / fl32 (of_int n))))"
proof -
  let ?md = "maxDelta (deltas (currentPose s) target)"
  let ?n = "max 1 (?md div stepSize)"
  have n: "stepCount ?md stepSize = Inr ?n"
    using assms(1) by (simp add: stepCount_pos maxDelta_nonneg)
  have m: "?md =
           Max {\<bar>base target - base (currentPose s)\<bar>, \<bar>shoulder target - shoulder (currentPose s)\<bar>,
                \<bar>elbow target - elbow (currentPose s)\<bar>, \<bar>wrist target - wrist (currentPose s)\<bar>,
                \<bar>gripper target - gripper (currentPose s)\<bar>}"
    by (simp add: maxDelta_def deltas_def max5_Max)
  have r: "int32 ?md"
    using assms(3,4) by (rule maxDelta_int32)
  have d: "\<forall>f \<in> set joints.
               f (deltas (currentPose s) target) = f target - f (currentPose s) \<and>
               int32 (f target - f (currentPose s))"
    using bounded_delta(2) joint_bounded [OF _ assms(3)] joint_bounded [OF _ assms(4)]
    by (simp add: deltas_joint)
  have c: "int32 (?n + 1)"
    using steps_int32(3) [OF maxDelta_nonneg maxDelta_int32(1) [OF assms(3,4)] n] .
  have v: "\<forall>i. \<forall>f \<in> set joints. 1 \<le> i \<and> i \<le> ?n \<longrightarrow>
               f (intermediatePose sk (currentPose s) (deltas (currentPose s) target) ?n i) =
                 interpolate sk (f (currentPose s)) (f target - f (currentPose s))
                   (fl32 (fl32 (of_int i) / fl32 (of_int ?n)))"
    by (simp add: intermediatePose_joint deltas_joint fdiv_def float_of_int_def)
  show ?thesis
    unfolding Let_def
    by (intro conjI) (rule m, rule r, rule d, rule n, rule c, rule moveToPose_Inr [OF n], rule v)
qed

theorem moveToPose_steps_witness:
  "(0::int) < 2 \<and> int32 2 \<and>
   bounded_pose (currentPose \<lparr>currentPose = \<lparr>base = 0, shoulder = 0, elbow = 0, wrist = 0, gripper = 0\<rparr>, trace = []\<rparr>) \<and>
   bounded_pose \<lparr>base = 100, shoulder = 0, elbow = 0, wrist = 0, gripper = 0\<rparr> \<and>
   base \<in> set joints \<and> shoulder \<in> set joints \<and> (1::int) \<le> 25 \<and> (25::int) \<le> 50 \<and>
   maxDelta (deltas (currentPose \<lparr>currentPose = \<lparr>base = 0, shoulder = 0, elbow = 0, wrist = 0, gripper = 0\<rparr>, trace = []\<rparr>)
       \<lparr>base = 100, shoulder = 0, elbow = 0, wrist = 0, gripper = 0\<rparr>) = 100 \<and>
   stepCount (maxDelta (deltas (currentPose \<lparr>currentPose = \<lparr>base = 0, shoulder = 0, elbow = 0, wrist = 0, gripper = 0\<rparr>, trace = []\<rparr>)
       \<lparr>base = 100, shoulder = 0, elbow = 0, wrist = 0, gripper = 0\<rparr>)) 2 = Inr 50 \<and>
   base (intermediatePose Debug_Sketch
       (currentPose \<lparr>currentPose = \<lparr>base = 0, shoulder = 0, elbow = 0, wrist = 0, gripper = 0\<rparr>, trace = []\<rparr>)
       (deltas (currentPose \<lparr>currentPose = \<lparr>base = 0, shoulder = 0, elbow = 0, wrist = 0, gripper = 0\<rparr>, trace = []\<rparr>)
          \<lparr>base = 100, shoulder = 0, elbow = 0, wrist = 0, gripper = 0\<rparr>) 50 25) = 50 \<and>
   shoulder (intermediatePose Debug_Sketch
       (currentPose \<lparr>currentPose = \<lparr>base = 0, shoulder = 0, elbow = 0, wrist = 0, gripper = 0\<rparr>, trace = []\<rparr>)
       (deltas (currentPose \<lparr>currentPose = \<lparr>base = 0, shoulder = 0, elbow = 0, wrist = 0, gripper = 0\<rparr>, trace = []\<rparr>)
          \<lparr>base = 100, shoulder = 0, elbow = 0, wrist = 0, gripper = 0\<rparr>) 50 25) = 0"
proof -
  let ?s = "\<lparr>currentPose = \<lparr>base = 0, shoulder = 0, elbow = 0, wrist = 0, gripper = 0\<rparr>, trace = []\<rparr>"
  let ?t = "\<lparr>base = 100, shoulder = 0, elbow = 0, wrist = 0, gripper = 0\<rparr>"
  let ?md = "maxDelta (deltas (currentPose ?s) ?t)"
  have h: "(0::int) < 2" "int32 2" "bounded_pose (currentPose ?s)" "bounded_pose ?t"
    by (simp_all add: int32_def bounded_pose_def bounded_def)
  have j: "base \<in> set joints" "shoulder \<in> set joints" "(1::int) \<le> 25" "(25::int) \<le> 50"
    by (simp_all add: joints_def)
  note run = moveToPose_steps [OF h, of Debug_Sketch limits_Debug_Sketch 8, unfolded Let_def]
  from run have m: "?md = 100"
    by simp
  from run have "stepCount ?md 2 = Inr (max 1 (?md div 2))"
    by blast
  then have n: "stepCount ?md 2 = Inr 50"
    by (simp only: m) simp
  have fifty: "max 1 (?md div 2) = 50"
    by (simp only: m)
  from run have "\<forall>i. \<forall>f \<in> set joints. 1 \<le> i \<and> i \<le> max 1 (?md div 2) \<longrightarrow>
       f (intermediatePose Debug_Sketch (currentPose ?s) (deltas (currentPose ?s) ?t)
            (max 1 (?md div 2)) i) =
         interpolate Debug_Sketch (f (currentPose ?s)) (f ?t - f (currentPose ?s))
           (fl32 (fl32 (of_int i) / fl32 (of_int (max 1 (?md div 2)))))"
    by blast
  then have v: "\<forall>i. \<forall>f \<in> set joints. 1 \<le> i \<and> i \<le> 50 \<longrightarrow>
       f (intermediatePose Debug_Sketch (currentPose ?s) (deltas (currentPose ?s) ?t) 50 i) =
         interpolate Debug_Sketch (f (currentPose ?s)) (f ?t - f (currentPose ?s))
           (fl32 (fl32 (of_int i) / fl32 50))"
    by (simp only: fifty) simp
  have e: "interpolate Debug_Sketch 0 100 (fl32 (fl32 25 / fl32 50)) = 50"
      "interpolate Debug_Sketch 0 0 (fl32 (fl32 25 / fl32 50)) = 0"
    by code_simp+
  from v j have b: "base (intermediatePose Debug_Sketch (currentPose ?s)
         (deltas (currentPose ?s) ?t) 50 25) = 50"
    using e(1) by fastforce
  from v j have sh: "shoulder (intermediatePose Debug_Sketch (currentPose ?s)
         (deltas (currentPose ?s) ?t) 50 25) = 0"
    using e(2) by fastforce
  from h j m n b sh show ?thesis
    by (intro conjI)
qed

text \<open>
  C5 (as stated it fails). The fraction \<open>t\<close> is a \<^verbatim>\<open>float\<close>, not a real number.
  From base 0 to base 44 with step size 2 there are 22 steps; at step 13 the product of
  44 and the \<^verbatim>\<open>float\<close> nearest to 13/22 is just below 26 and truncates to 25,
  where \<open>start + round_toward_zero (delta * i / steps)\<close> is 26: the debug sketch
  writes 25 to the base servo. \<^verbatim>\<open>Main_Code.ino\<close> moreover truncates the sum, not
  the product: from 10 to 5 in two steps its first value is 7, not 8.
\<close>

theorem intermediatePose_real_counterexample:
  "stepCount (maxDelta (deltas \<lparr>base = 0, shoulder = 0, elbow = 0, wrist = 0, gripper = 0\<rparr>
       \<lparr>base = 44, shoulder = 0, elbow = 0, wrist = 0, gripper = 0\<rparr>)) 2 = Inr 22 \<and>
   base (intermediatePose Debug_Sketch \<lparr>base = 0, shoulder = 0, elbow = 0, wrist = 0, gripper = 0\<rparr>
     (deltas \<lparr>base = 0, shoulder = 0, elbow = 0, wrist = 0, gripper = 0\<rparr>
       \<lparr>base = 44, shoulder = 0, elbow = 0, wrist = 0, gripper = 0\<rparr>) 22 13) = 25 \<and>
   0 + int_of_float (44 * (13 / 22)) = 26 \<and>
   take 6 (drop 72 (trace (projr (moveToPose Debug_Sketch limits_Debug_Sketch
       \<lparr>base = 44, shoulder = 0, elbow = 0, wrist = 0, gripper = 0\<rparr> 8 2
       \<lparr>currentPose = \<lparr>base = 0, shoulder = 0, elbow = 0, wrist = 0, gripper = 0\<rparr>,
        trace = []\<rparr>)))) =
     [ServoWrite baseServo 25, ServoWrite shoulderServo 0, ServoWrite elbowServo 0,
      ServoWrite wristServo 0, ServoWrite gripperServo 0, Delay 8] \<and>
   stepCount (maxDelta (deltas \<lparr>base = 10, shoulder = 0, elbow = 0, wrist = 0, gripper = 0\<rparr>
       \<lparr>base = 5, shoulder = 0, elbow = 0, wrist = 0, gripper = 0\<rparr>)) 2 = Inr 2 \<and>
   base (intermediatePose Main_Code \<lparr>base = 10, shoulder = 0, elbow = 0, wrist = 0, gripper = 0\<rparr>
     (deltas \<lparr>base = 10, shoulder = 0, elbow = 0, wrist = 0, gripper = 0\<rparr>
       \<lparr>base = 5, shoulder = 0, elbow = 0, wrist = 0, gripper = 0\<rparr>) 2 1) = 7 \<and>
   10 + int_of_float (- 5 * (1 / 2)) = 8"
  by code_simp

text \<open>
  C5, amended. For start and target poses whose joint values have magnitude at most
  \<open>2\<^sup>2\<^sup>9\<close>, a call of \<^verbatim>\<open>moveToPose\<close> with step count \<open>steps\<close> emits, for \<open>i\<close>
  from 1 to \<open>steps\<close>, the pose whose joint \<open>j\<close> is computed in single precision:
  \<open>t\<close> is the \<^verbatim>\<open>float\<close> quotient of \<open>i\<close> and \<open>steps\<close>, \<open>p\<close> the \<^verbatim>\<open>float\<close>
  product of \<open>delta[j]\<close> and \<open>t\<close>; the debug sketch emits \<open>start[j]\<close> plus \<open>p\<close>
  truncated towards zero, \<^verbatim>\<open>Main_Code.ino\<close> emits the \<^verbatim>\<open>float\<close> sum of
  \<open>start[j]\<close> and \<open>p\<close>, truncated towards zero. No \<^verbatim>\<open>int\<close> of this computation
  leaves the range of \<^verbatim>\<open>int\<close> and every \<^verbatim>\<open>float\<close> converted is inside it. For at
  most \<open>2\<^sup>2\<^sup>4\<close> steps and a delta of magnitude at most \<open>2\<^sup>2\<^sup>2\<close> (in
  \<^verbatim>\<open>Main_Code.ino\<close> a start value of that size too) the value emitted differs from
  \<open>start[j] + round_toward_zero (delta[j] * i / steps)\<close>, computed in the reals, by at
  most 1 in the debug sketch and by at most 2 in \<^verbatim>\<open>Main_Code.ino\<close>.
\<close>

theorem intermediatePose_formula:
  assumes "stepCount (maxDelta (deltas (currentPose s) target)) stepSize = Inr steps"
    and "bounded_pose (currentPose s)" and "bounded_pose target" and "int32 stepSize"
  shows "moveToPose sk cfg target ms stepSize s =
           Inr \<lparr>currentPose = target,
                trace = trace s @
                  concat (map (\<lambda>i. servoWrites sk cfg
                                  (intermediatePose sk (currentPose s)
                                     (deltas (currentPose s) target) steps i) @ [Delay ms])
                            [1..steps]) @
                  StoreCurrentPose target # servoWrites sk cfg target\<rparr> \<and>
         (\<forall>i. \<forall>f \<in> set joints. 1 \<le> i \<and> i \<le> steps \<longrightarrow>
            f (intermediatePose sk (currentPose s) (deltas (currentPose s) target) steps i) =
              (let t = fl32 (fl32 (of_int i) / fl32 (of_int steps));
                   p = fl32 (fl32 (of_int (f target - f (currentPose s))) * t)
               in if sk = Main_Code
                  then int_of_float (fl32 (fl32 (of_int (f (currentPose s))) + p))
                  else f (currentPose s) + int_of_float p)) \<and>
         (\<forall>i. \<forall>f \<in> set joints. 1 \<le> i \<and> i \<le> steps \<longrightarrow>
              (let t = fl32 (fl32 (of_int i) / fl32 (of_int steps));
                   p = fl32 (fl32 (of_int (f target - f (currentPose s))) * t)
               in int32 (f target - f (currentPose s)) \<and> convertible p \<and>
                  convertible (fl32 (fl32 (of_int (f (currentPose s))) + p)) \<and>
                  int32 (int_of_float p) \<and>
                  int32 (f (intermediatePose sk (currentPose s)
                              (deltas (currentPose s) target) steps i)))) \<and>
         int32 (steps + 1) \<and>
         (\<forall>x. int_of_float x = (if 0 \<le> x then \<lfloor>x\<rfloor> else - \<lfloor>- x\<rfloor>)) \<and>
         (\<forall>i. \<forall>f \<in> set joints.
            1 \<le> i \<and> i \<le> steps \<and> steps \<le> 2 ^ 24 \<and>
            \<bar>f target - f (currentPose s)\<bar> \<le> 2 ^ 22 \<and>
            (sk = Debug_Sketch \<or> \<bar>f (currentPose s)\<bar> \<le> 2 ^ 22) \<longrightarrow>
            \<bar>f (intermediatePose sk (currentPose s) (deltas (currentPose s) target) steps i)
               - (f (currentPose s) +
                  int_of_float (of_int (f target - f (currentPose s))
                                  * (of_int i / of_int steps)))\<bar>
              \<le> (if sk = Main_Code then 2 else 1))"
proof -
  let ?start = "currentPose s"
  have "stepEvents sk cfg ?start (deltas ?start target) ms steps =
        (\<lambda>i. servoWrites sk cfg (intermediatePose sk ?start (deltas ?start target) steps i) @
             [Delay ms])"
    by (rule ext) (simp add: stepEvents_def)
  then have run: "moveToPose sk cfg target ms stepSize s =
           Inr \<lparr>currentPose = target,
                trace = trace s @
                  concat (map (\<lambda>i. servoWrites sk cfg
                                  (intermediatePose sk ?start (deltas ?start target) steps i) @
                                [Delay ms])
                            [1..steps]) @
                  StoreCurrentPose target # servoWrites sk cfg target\<rparr>"
    using moveToPose_Inr [OF assms(1), of sk cfg ms] by simp
  have val: "f (intermediatePose sk ?start (deltas ?start target) steps i) =
              (let t = fl32 (fl32 (of_int i) / fl32 (of_int steps));
                   p = fl32 (fl32 (of_int (f target - f ?start)) * t)
               in if sk = Main_Code
                  then int_of_float (fl32 (fl32 (of_int (f ?start)) + p))
                  else f ?start + int_of_float p)"
    if "f \<in> set joints" for f i
    using that
    by (cases sk)
       (simp_all add: intermediatePose_joint deltas_joint interpolate_def fadd_def fmul_def
          fdiv_def float_of_int_def Let_def)
  have safe: "(let t = fl32 (fl32 (of_int i) / fl32 (of_int steps));
                   p = fl32 (fl32 (of_int (f target - f ?start)) * t)
               in int32 (f target - f ?start) \<and> convertible p \<and>
                  convertible (fl32 (fl32 (of_int (f ?start)) + p)) \<and>
                  int32 (int_of_float p) \<and>
                  int32 (f (intermediatePose sk ?start (deltas ?start target) steps i)))"
    if f: "f \<in> set joints" and i: "1 \<le> i" "i \<le> steps" for f i
  proof -
    have a: "bounded (f ?start)" and b: "bounded (f target)"
      using f assms(2,3) by (simp_all add: joint_bounded)
    note t = fraction_range [OF i]
    note no = interpolate_no_overflow [OF a b t]
    show ?thesis
      using no f
      by (simp add: Let_def intermediatePose_joint deltas_joint fadd_def fmul_def fdiv_def
          float_of_int_def)
  qed
  have cnt: "int32 (steps + 1)"
    using steps_int32(3) [OF maxDelta_nonneg maxDelta_int32(1) [OF assms(2,3)] assms(1)] .
  have tr: "int_of_float x = (if 0 \<le> x then \<lfloor>x\<rfloor> else - \<lfloor>- x\<rfloor>)" for x
    by (simp add: int_of_float_def ceiling_def)
  have close: "\<bar>f (intermediatePose sk ?start (deltas ?start target) steps i)
               - (f ?start +
                  int_of_float (of_int (f target - f ?start) * (of_int i / of_int steps)))\<bar>
              \<le> (if sk = Main_Code then 2 else 1)"
    if f: "f \<in> set joints" and i: "1 \<le> i" "i \<le> steps" "steps \<le> 2 ^ 24"
      and d: "\<bar>f target - f ?start\<bar> \<le> 2 ^ 22"
      and a: "sk = Debug_Sketch \<or> \<bar>f ?start\<bar> \<le> 2 ^ 22" for f i
  proof (cases sk)
    case Main_Code
    then have "\<bar>f ?start\<bar> \<le> 2 ^ 22"
      using a by simp
    then show ?thesis
      using interpolate_Main_close [OF i _ d, of "f ?start"] f
      by (simp add: intermediatePose_joint deltas_joint Main_Code)
  next
    case Debug_Sketch
    have "\<bar>f target - f ?start\<bar> \<le> 2 ^ 23"
      using d by simp
    then show ?thesis
      using interpolate_Debug_close [OF i, of "f target - f ?start" "f ?start"] f
      by (simp add: intermediatePose_joint deltas_joint Debug_Sketch)
  qed
  show ?thesis
    using run val safe cnt tr close by blast
qed

theorem intermediatePose_formula_witness:
  "stepCount (maxDelta (deltas
       (currentPose \<lparr>currentPose = \<lparr>base = 0, shoulder = 0, elbow = 0, wrist = 0, gripper = 0\<rparr>,
                     trace = []\<rparr>)
       \<lparr>base = 44, shoulder = 0, elbow = 0, wrist = 0, gripper = 0\<rparr>)) 2 = Inr 22 \<and>
   bounded_pose
       (currentPose \<lparr>currentPose = \<lparr>base = 0, shoulder = 0, elbow = 0, wrist = 0, gripper = 0\<rparr>,
                     trace = []\<rparr>) \<and>
   bounded_pose \<lparr>base = 44, shoulder = 0, elbow = 0, wrist = 0, gripper = 0\<rparr> \<and>
   int32 2 \<and> base \<in> set joints \<and> (1::int) \<le> 13 \<and> (13::int) \<le> 22 \<and> (22::int) \<le> 2 ^ 24 \<and>
   \<bar>44 - 0 :: int\<bar> \<le> 2 ^ 22 \<and>
   base (intermediatePose Debug_Sketch
       (currentPose \<lparr>currentPose = \<lparr>base = 0, shoulder = 0, elbow = 0, wrist = 0, gripper = 0\<rparr>,
                     trace = []\<rparr>)
       (deltas
         (currentPose \<lparr>currentPose = \<lparr>base = 0, shoulder = 0, elbow = 0, wrist = 0, gripper = 0\<rparr>,
                       trace = []\<rparr>)
         \<lparr>base = 44, shoulder = 0, elbow = 0, wrist = 0, gripper = 0\<rparr>) 22 13) =
     0 + int_of_float (fl32 (fl32 44 * fl32 (fl32 13 / fl32 22))) \<and>
   0 + int_of_float (fl32 (fl32 44 * fl32 (fl32 13 / fl32 22))) = 25 \<and>
   int32 (base (intermediatePose Debug_Sketch
       (currentPose \<lparr>currentPose = \<lparr>base = 0, shoulder = 0, elbow = 0, wrist = 0, gripper = 0\<rparr>,
                     trace = []\<rparr>)
       (deltas
         (currentPose \<lparr>currentPose = \<lparr>base = 0, shoulder = 0, elbow = 0, wrist = 0, gripper = 0\<rparr>,
                       trace = []\<rparr>)
         \<lparr>base = 44, shoulder = 0, elbow = 0, wrist = 0, gripper = 0\<rparr>) 22 13)) \<and>
   \<bar>base (intermediatePose Debug_Sketch
       (currentPose \<lparr>currentPose = \<lparr>base = 0, shoulder = 0, elbow = 0, wrist = 0, gripper = 0\<rparr>,
                     trace = []\<rparr>)
       (deltas
         (currentPose \<lparr>currentPose = \<lparr>base = 0, shoulder = 0, elbow = 0, wrist = 0, gripper = 0\<rparr>,
                       trace = []\<rparr>)
         \<lparr>base = 44, shoulder = 0, elbow = 0, wrist = 0, gripper = 0\<rparr>) 22 13)
     - (0 + int_of_float (of_int (44 - 0) * (of_int 13 / of_int 22)))\<bar> \<le> 1"
proof -
  let ?s = "\<lparr>currentPose = \<lparr>base = 0, shoulder = 0, elbow = 0, wrist = 0, gripper = 0\<rparr>,
             trace = []\<rparr>"
  let ?t = "\<lparr>base = 44, shoulder = 0, elbow = 0, wrist = 0, gripper = 0\<rparr>"
  let ?v = "base (intermediatePose Debug_Sketch (currentPose ?s)
               (deltas (currentPose ?s) ?t) 22 13)"
  have h: "stepCount (maxDelta (deltas (currentPose ?s) ?t)) 2 = Inr 22"
    by code_simp
  have bb: "bounded_pose (currentPose ?s)" "bounded_pose ?t" "int32 2"
    by (simp_all add: bounded_pose_def bounded_def int32_def)
  have j: "base \<in> set joints"
    by (simp add: joints_def)
  have r: "(1::int) \<le> 13" "(13::int) \<le> 22" "(22::int) \<le> 2 ^ 24" "\<bar>44 - 0 :: int\<bar> \<le> 2 ^ 22"
    by simp_all
  have e: "0 + int_of_float (fl32 (fl32 44 * fl32 (fl32 13 / fl32 22))) = 25"
    by code_simp
  note run = intermediatePose_formula [OF h bb, of Debug_Sketch limits_Debug_Sketch 8]
  from run j r(1,2)
  have "?v =
     (let t = fl32 (fl32 (of_int 13) / fl32 (of_int 22));
          p = fl32 (fl32 (of_int (base ?t - base (currentPose ?s))) * t)
      in if Debug_Sketch = Main_Code
         then int_of_float (fl32 (fl32 (of_int (base (currentPose ?s))) + p))
         else base (currentPose ?s) + int_of_float p)"
    by blast
  then have v: "?v = 0 + int_of_float (fl32 (fl32 44 * fl32 (fl32 13 / fl32 22)))"
    by (simp add: Let_def)
  from run j r(1,2)
  have "(let t = fl32 (fl32 (of_int 13) / fl32 (of_int 22));
             p = fl32 (fl32 (of_int (base ?t - base (currentPose ?s))) * t)
         in int32 (base ?t - base (currentPose ?s)) \<and> convertible p \<and>
            convertible (fl32 (fl32 (of_int (base (currentPose ?s))) + p)) \<and>
            int32 (int_of_float p) \<and> int32 ?v)"
    by blast
  then have i32: "int32 ?v"
    by (simp add: Let_def)
  from run j
  have "(1::int) \<le> 13 \<and> (13::int) \<le> 22 \<and> (22::int) \<le> 2 ^ 24 \<and>
        \<bar>base ?t - base (currentPose ?s)\<bar> \<le> 2 ^ 22 \<and>
        (Debug_Sketch = Debug_Sketch \<or> \<bar>base (currentPose ?s)\<bar> \<le> 2 ^ 22) \<longrightarrow>
        \<bar>?v - (base (currentPose ?s) +
              int_of_float (of_int (base ?t - base (currentPose ?s))
                              * (of_int 13 / of_int 22)))\<bar>
          \<le> (if Debug_Sketch = Main_Code then 2 else 1)"
    by blast
  then have c: "\<bar>?v - (0 + int_of_float (of_int (44 - 0) * (of_int 13 / of_int 22)))\<bar> \<le> 1"
    by simp
  from h bb j r v e i32 c show ?thesis
    by (intro conjI)
qed

text \<open>
  C6 (as stated it fails). A move to the pose the arm is at has one step: the loop
  writes the pose once, waits, and the final write follows. These are two emissions,
  not one, as in a move to the home pose from the home pose.
\<close>

theorem moveToPose_same_pose_counterexample:
  "moveToPose Main_Code limits_Main_Code (homePose Main_Code) 10 3
      \<lparr>currentPose = homePose Main_Code, trace = []\<rparr> =
    Inr \<lparr>currentPose = homePose Main_Code,
         trace = [ServoWrite baseServo 90, ServoWrite shoulderServo 90, ServoWrite elbowServo 90,
                  ServoWrite wristServo 90, ServoWrite gripperServo 90, Delay 10,
                  StoreCurrentPose (homePose Main_Code),
                  ServoWrite baseServo 90, ServoWrite shoulderServo 90, ServoWrite elbowServo 90,
                  ServoWrite wristServo 90, ServoWrite gripperServo 90]\<rparr>"
  by code_simp

text \<open>
  C6, amended. When the target is the current pose and the step size is not zero,
  \<^verbatim>\<open>moveToPose\<close> emits the current pose twice, once from the loop (followed by
  one delay) and once as the final write, and no other pose; \<^verbatim>\<open>currentPose\<close> keeps
  its value. In \<^verbatim>\<open>Main_Code.ino\<close>, where the start value itself passes through
  \<^verbatim>\<open>float\<close>, this needs joint values of magnitude at most \<open>2\<^sup>2\<^sup>4\<close>.
\<close>

theorem moveToPose_same_pose:
  assumes "stepSize \<noteq> 0" and "sk = Debug_Sketch \<or> small_pose (currentPose s)"
  shows "moveToPose sk cfg (currentPose s) ms stepSize s =
           Inr (s\<lparr>trace := trace s @ servoWrites sk cfg (currentPose s) @
                     [Delay ms, StoreCurrentPose (currentPose s)] @
                     servoWrites sk cfg (currentPose s)\<rparr>)"
proof -
  have n: "stepCount (maxDelta (deltas (currentPose s) (currentPose s))) stepSize = Inr 1"
    using assms(1) by (simp add: maxDelta_same stepCount_0)
  show ?thesis
    using moveToPose_Inr [OF n, of sk cfg ms] intermediatePose_rest [OF assms(2)]
    by (simp add: stepEvents_def)
qed

theorem moveToPose_same_pose_witness:
  "(3::int) \<noteq> 0 \<and> (Main_Code = Debug_Sketch \<or>
      small_pose (currentPose \<lparr>currentPose = homePose Main_Code, trace = []\<rparr>)) \<and>
   moveToPose Main_Code limits_Main_Code
      (currentPose \<lparr>currentPose = homePose Main_Code, trace = []\<rparr>) 10 3
      \<lparr>currentPose = homePose Main_Code, trace = []\<rparr> =
    Inr \<lparr>currentPose = homePose Main_Code,
         trace = servoWrites Main_Code limits_Main_Code (homePose Main_Code) @
                  [Delay 10, StoreCurrentPose (homePose Main_Code)] @
                  servoWrites Main_Code limits_Main_Code (homePose Main_Code)\<rparr>"
proof -
  have h: "(3::int) \<noteq> 0"
      "Main_Code = Debug_Sketch \<or>
       small_pose (currentPose \<lparr>currentPose = homePose Main_Code, trace = []\<rparr>)"
    by (simp_all add: small_pose_def small_def limits_Main_Code_def)
  show ?thesis
    using h moveToPose_same_pose [OF h, of limits_Main_Code 10] by simp
qed

text \<open>
  C7. A call of \<^verbatim>\<open>moveToPose\<close> whose step count is \<open>steps\<close> appends to the
  trace a prefix \<open>pre\<close> (the loop), the store into \<^verbatim>\<open>currentPose\<close> and the five
  writes of the last \<^verbatim>\<open>writePose\<close>. Each servo is written \<open>steps + 1\<close> times, that
  is \<^verbatim>\<open>writePose\<close> is called \<open>steps + 1\<close> times; there are \<open>steps\<close> delays, all
  of them in the loop; and \<^verbatim>\<open>currentPose\<close> is stored once, after the loop.
\<close>

theorem moveToPose_effects:
  assumes "stepCount (maxDelta (deltas (currentPose s) target)) stepSize = Inr steps"
  shows "\<exists>pre. moveToPose sk cfg target ms stepSize s =
            Inr \<lparr>currentPose = target,
                 trace = trace s @ pre @ StoreCurrentPose target # servoWrites sk cfg target\<rparr> \<and>
          (\<forall>sv. length (filter (is_write sv)
                          (pre @ StoreCurrentPose target # servoWrites sk cfg target))
                 = nat steps + 1) \<and>
          length (filter is_delay (pre @ StoreCurrentPose target # servoWrites sk cfg target))
            = nat steps \<and>
          length (filter is_delay pre) = nat steps \<and>
          filter is_store pre = [] \<and>
          filter is_store (pre @ StoreCurrentPose target # servoWrites sk cfg target)
            = [StoreCurrentPose target]"
proof -
  let ?f = "stepEvents sk cfg (currentPose s) (deltas (currentPose s) target) ms steps"
  let ?pre = "concat (map ?f [1..steps])"
  have run: "moveToPose sk cfg target ms stepSize s =
      Inr \<lparr>currentPose = target,
           trace = trace s @ ?pre @ StoreCurrentPose target # servoWrites sk cfg target\<rparr>"
    using assms by (rule moveToPose_Inr)
  have w: "length (filter (is_write sv) ?pre) = nat steps" for sv
    using length_filter_concat_const [of "[1..steps]" "is_write sv" ?f 1]
    by (simp add: writes_stepEvents)
  have d: "length (filter is_delay ?pre) = nat steps"
    using length_filter_concat_const [of "[1..steps]" is_delay ?f 1]
    by (simp add: delays_stepEvents)
  have st: "filter is_store ?pre = []"
    by (rule filter_concat_Nil) (rule stores_stepEvents)
  show ?thesis
    using run w d st
    by (intro exI [of _ ?pre])
       (simp add: writes_servoWrites delays_servoWrites stores_servoWrites)
qed

theorem moveToPose_effects_witness:
  "stepCount (maxDelta (deltas (currentPose \<lparr>currentPose = homePose Main_Code, trace = []\<rparr>)
       \<lparr>base = 60, shoulder = 70, elbow = 110, wrist = 80, gripper = 90\<rparr>)) 3 = Inr 10 \<and>
   (\<exists>pre. moveToPose Main_Code limits_Main_Code
             \<lparr>base = 60, shoulder = 70, elbow = 110, wrist = 80, gripper = 90\<rparr> 10 3
             \<lparr>currentPose = homePose Main_Code, trace = []\<rparr> =
           Inr \<lparr>currentPose = \<lparr>base = 60, shoulder = 70, elbow = 110, wrist = 80, gripper = 90\<rparr>,
                trace = pre @
                  StoreCurrentPose \<lparr>base = 60, shoulder = 70, elbow = 110, wrist = 80, gripper = 90\<rparr> #
                  servoWrites Main_Code limits_Main_Code
                    \<lparr>base = 60, shoulder = 70, elbow = 110, wrist = 80, gripper = 90\<rparr>\<rparr> \<and>
           length (filter (is_write baseServo)
             (pre @ StoreCurrentPose \<lparr>base = 60, shoulder = 70, elbow = 110, wrist = 80, gripper = 90\<rparr> #
                  servoWrites Main_Code limits_Main_Code
                    \<lparr>base = 60, shoulder = 70, elbow = 110, wrist = 80, gripper = 90\<rparr>)) = 11 \<and>
           length (filter is_delay pre) = 10 \<and>
           filter is_store pre = [])"
proof -
  have h: "stepCount (maxDelta (deltas (currentPose \<lparr>currentPose = homePose Main_Code, trace = []\<rparr>)
       \<lparr>base = 60, shoulder = 70, elbow = 110, wrist = 80, gripper = 90\<rparr>)) 3 = Inr 10"
    by (simp add: stepCount_def maxDelta_def deltas_def max5_def limits_Main_Code_def
        signed_divide_int_def)
  from moveToPose_effects [OF h, of Main_Code limits_Main_Code 10]
  obtain pre where
    "moveToPose Main_Code limits_Main_Code
             \<lparr>base = 60, shoulder = 70, elbow = 110, wrist = 80, gripper = 90\<rparr> 10 3
             \<lparr>currentPose = homePose Main_Code, trace = []\<rparr> =
           Inr \<lparr>currentPose = \<lparr>base = 60, shoulder = 70, elbow = 110, wrist = 80, gripper = 90\<rparr>,
                trace = trace \<lparr>currentPose = homePose Main_Code, trace = []\<rparr> @ pre @
                  StoreCurrentPose \<lparr>base = 60, shoulder = 70, elbow = 110, wrist = 80, gripper = 90\<rparr> #
                  servoWrites Main_Code limits_Main_Code
                    \<lparr>base = 60, shoulder = 70, elbow = 110, wrist = 80, gripper = 90\<rparr>\<rparr>"
    "\<forall>sv. length (filter (is_write sv)
             (pre @ StoreCurrentPose \<lparr>base = 60, shoulder = 70, elbow = 110, wrist = 80, gripper = 90\<rparr> #
                  servoWrites Main_Code limits_Main_Code
                    \<lparr>base = 60, shoulder = 70, elbow = 110, wrist = 80, gripper = 90\<rparr>)) = nat 10 + 1"
    "length (filter is_delay pre) = nat 10"
    "filter is_store pre = []"
    by blast
  then show ?thesis
    using h by (intro conjI exI [of _ pre]) simp_all
qed




text \<open>
  C9. \<^verbatim>\<open>openGripper\<close> (\<^verbatim>\<open>closeGripper\<close>) is \<^verbatim>\<open>moveToPose\<close> with step
  size 2 to the current pose with the gripper field replaced by \<^verbatim>\<open>GRIPPER_OPEN\<close>
  (\<^verbatim>\<open>GRIPPER_CLOSE\<close>). It returns; afterwards base, shoulder, elbow and wrist of
  \<^verbatim>\<open>currentPose\<close> are as before and the gripper field is that angle.
\<close>

theorem gripper_helpers:
  "openGripper sk cfg ms s = moveToPose sk cfg ((currentPose s)\<lparr>gripper := GRIPPER_OPEN cfg\<rparr>) ms 2 s \<and>
   (\<exists>s'. openGripper sk cfg ms s = Inr s' \<and>
          currentPose s' = (currentPose s)\<lparr>gripper := GRIPPER_OPEN cfg\<rparr> \<and>
          base (currentPose s') = base (currentPose s) \<and>
          shoulder (currentPose s') = shoulder (currentPose s) \<and>
          elbow (currentPose s') = elbow (currentPose s) \<and>
          wrist (currentPose s') = wrist (currentPose s) \<and>
          gripper (currentPose s') = GRIPPER_OPEN cfg) \<and>
   closeGripper sk cfg ms s = moveToPose sk cfg ((currentPose s)\<lparr>gripper := GRIPPER_CLOSE cfg\<rparr>) ms 2 s \<and>
   (\<exists>s'. closeGripper sk cfg ms s = Inr s' \<and>
          currentPose s' = (currentPose s)\<lparr>gripper := GRIPPER_CLOSE cfg\<rparr> \<and>
          base (currentPose s') = base (currentPose s) \<and>
          shoulder (currentPose s') = shoulder (currentPose s) \<and>
          elbow (currentPose s') = elbow (currentPose s) \<and>
          wrist (currentPose s') = wrist (currentPose s) \<and>
          gripper (currentPose s') = GRIPPER_CLOSE cfg)"
proof -
  have two: "(2::int) \<noteq> 0"
    by simp
  obtain n where n: "stepCount (maxDelta (deltas (currentPose s)
      ((currentPose s)\<lparr>gripper := GRIPPER_OPEN cfg\<rparr>))) 2 = Inr n"
    using stepCount_Inr [OF two] by blast
  obtain m where m: "stepCount (maxDelta (deltas (currentPose s)
      ((currentPose s)\<lparr>gripper := GRIPPER_CLOSE cfg\<rparr>))) 2 = Inr m"
    using stepCount_Inr [OF two] by blast
  have o: "\<exists>s'. openGripper sk cfg ms s = Inr s' \<and>
          currentPose s' = (currentPose s)\<lparr>gripper := GRIPPER_OPEN cfg\<rparr>"
    using moveToPose_Inr [OF n, of sk cfg ms] by (simp add: openGripper_def)
  have c: "\<exists>s'. closeGripper sk cfg ms s = Inr s' \<and>
          currentPose s' = (currentPose s)\<lparr>gripper := GRIPPER_CLOSE cfg\<rparr>"
    using moveToPose_Inr [OF m, of sk cfg ms] by (simp add: closeGripper_def)
  from o obtain s1 where s1: "openGripper sk cfg ms s = Inr s1"
      "currentPose s1 = (currentPose s)\<lparr>gripper := GRIPPER_OPEN cfg\<rparr>"
    by blast
  from c obtain s2 where s2: "closeGripper sk cfg ms s = Inr s2"
      "currentPose s2 = (currentPose s)\<lparr>gripper := GRIPPER_CLOSE cfg\<rparr>"
    by blast
  have d1: "openGripper sk cfg ms s =
      moveToPose sk cfg ((currentPose s)\<lparr>gripper := GRIPPER_OPEN cfg\<rparr>) ms 2 s"
    by (simp add: openGripper_def)
  have d2: "closeGripper sk cfg ms s =
      moveToPose sk cfg ((currentPose s)\<lparr>gripper := GRIPPER_CLOSE cfg\<rparr>) ms 2 s"
    by (simp add: closeGripper_def)
  show ?thesis
    by (intro conjI d1 d2 exI [of _ s1] exI [of _ s2]) (simp_all add: s1 s2)
qed

text \<open>
  C10 (as stated it fails). Beyond \<open>2\<^sup>2\<^sup>4\<close> the conversion of \<open>delta\<close> to
  \<^verbatim>\<open>float\<close> rounds: from base 0 to base 16777219 in one step the intermediate
  base is 16777220, past the target.
\<close>

theorem intermediatePose_overshoot_counterexample:
  "stepCount (maxDelta (deltas \<lparr>base = 0, shoulder = 0, elbow = 0, wrist = 0, gripper = 0\<rparr>
       \<lparr>base = 16777219, shoulder = 0, elbow = 0, wrist = 0, gripper = 0\<rparr>)) 16777219 = Inr 1 \<and>
   base (intermediatePose Debug_Sketch \<lparr>base = 0, shoulder = 0, elbow = 0, wrist = 0, gripper = 0\<rparr>
     (deltas \<lparr>base = 0, shoulder = 0, elbow = 0, wrist = 0, gripper = 0\<rparr>
       \<lparr>base = 16777219, shoulder = 0, elbow = 0, wrist = 0, gripper = 0\<rparr>) 1 1) = 16777220"
  by code_simp

text \<open>
  C10, amended. For start and target poses whose joint values have magnitude at most
  \<open>2\<^sup>2\<^sup>9\<close>, the intermediate values of a joint are values of \<^verbatim>\<open>int\<close> and are
  monotone in the step index: for \<open>1 \<le> i \<le> k \<le> steps\<close> the value at \<open>k\<close> is
  not below the value at \<open>i\<close> when the target is not below the start, and not above
  it when the target is not above the start. When moreover the joint's delta has
  magnitude at most \<open>2\<^sup>2\<^sup>4\<close> (and, in \<^verbatim>\<open>Main_Code.ino\<close>, its start and target
  values too), every intermediate value lies between start and target inclusive.
\<close>

theorem intermediatePose_monotone:
  assumes "1 \<le> i" and "i \<le> k" and "k \<le> steps" and "f \<in> set joints"
    and "bounded_pose start" and "bounded_pose target" and "int32 (steps + 1)"
  shows "int32 (f (intermediatePose sk start (deltas start target) steps i)) \<and>
         int32 (f (intermediatePose sk start (deltas start target) steps k)) \<and>
         (f start \<le> f target \<longrightarrow>
            f (intermediatePose sk start (deltas start target) steps i)
              \<le> f (intermediatePose sk start (deltas start target) steps k)) \<and>
         (f target \<le> f start \<longrightarrow>
            f (intermediatePose sk start (deltas start target) steps k)
              \<le> f (intermediatePose sk start (deltas start target) steps i)) \<and>
         (small (f target - f start) \<and>
          (sk = Debug_Sketch \<or> small (f start) \<and> small (f target)) \<longrightarrow>
            (f start \<le> f target \<longrightarrow>
               f start \<le> f (intermediatePose sk start (deltas start target) steps i) \<and>
               f (intermediatePose sk start (deltas start target) steps i) \<le> f target) \<and>
            (f target \<le> f start \<longrightarrow>
               f target \<le> f (intermediatePose sk start (deltas start target) steps i) \<and>
               f (intermediatePose sk start (deltas start target) steps i) \<le> f start))"
proof -
  let ?d = "f target - f start"
  let ?t = "\<lambda>j. fdiv (float_of_int j) (float_of_int steps)"
  have v: "f (intermediatePose sk start (deltas start target) steps j) =
           interpolate sk (f start) ?d (?t j)" for j
    using assms(4) by (simp add: intermediatePose_joint deltas_joint)
  have n: "1 \<le> steps" and i: "i \<le> steps"
    using assms by simp_all
  have tt: "?t i \<le> ?t k"
    using n assms(2) by (rule fraction_mono)
  have t01: "0 \<le> ?t i" "?t i \<le> 1"
    using fraction_range [OF assms(1) i] by simp_all
  have up: "f start \<le> f target \<Longrightarrow>
      interpolate sk (f start) ?d (?t i) \<le> interpolate sk (f start) ?d (?t k)"
    using tt by (intro interpolate_mono_up) simp_all
  have down: "f target \<le> f start \<Longrightarrow>
      interpolate sk (f start) ?d (?t k) \<le> interpolate sk (f start) ?d (?t i)"
    using tt by (intro interpolate_mono_down) simp_all
  have bu: "f start \<le> interpolate sk (f start) ?d (?t i) \<and>
            interpolate sk (f start) ?d (?t i) \<le> f target"
    if "small ?d" "sk = Debug_Sketch \<or> small (f start) \<and> small (f target)" "f start \<le> f target"
    using interpolate_between_up [of ?d sk "f start" "?t i"] that t01 by simp
  have bd: "f target \<le> interpolate sk (f start) ?d (?t i) \<and>
            interpolate sk (f start) ?d (?t i) \<le> f start"
    if "small ?d" "sk = Debug_Sketch \<or> small (f start) \<and> small (f target)" "f target \<le> f start"
    using interpolate_between_down [of ?d sk "f start" "?t i"] that t01 by simp
  have k: "1 \<le> k"
    using assms by simp
  have r: "int32 (interpolate sk (f start) ?d (?t i))" "int32 (interpolate sk (f start) ?d (?t k))"
    using interpolate_no_overflow(5) [OF joint_bounded [OF assms(4,5)]
        joint_bounded [OF assms(4,6)]] fraction_range [OF assms(1) i]
      fraction_range [OF k assms(3)]
    by simp_all
  show ?thesis
    unfolding v using r up down bu bd by blast
qed

theorem intermediatePose_monotone_witness:
  "(1::int) \<le> 3 \<and> (3::int) \<le> 7 \<and> (7::int) \<le> 10 \<and>
   base \<in> set joints \<and> elbow \<in> set joints \<and>
   bounded_pose (homePose Main_Code) \<and>
   bounded_pose \<lparr>base = 60, shoulder = 70, elbow = 110, wrist = 80, gripper = 90\<rparr> \<and>
   int32 (10 + 1) \<and>
   base \<lparr>base = 60, shoulder = 70, elbow = 110, wrist = 80, gripper = 90\<rparr>
     \<le> base (homePose Main_Code) \<and>
   small (base \<lparr>base = 60, shoulder = 70, elbow = 110, wrist = 80, gripper = 90\<rparr>
            - base (homePose Main_Code)) \<and>
   small (base (homePose Main_Code)) \<and>
   small (base \<lparr>base = 60, shoulder = 70, elbow = 110, wrist = 80, gripper = 90\<rparr>) \<and>
   base \<lparr>base = 60, shoulder = 70, elbow = 110, wrist = 80, gripper = 90\<rparr>
     \<le> base (intermediatePose Main_Code (homePose Main_Code)
           (deltas (homePose Main_Code)
              \<lparr>base = 60, shoulder = 70, elbow = 110, wrist = 80, gripper = 90\<rparr>) 10 7) \<and>
   base (intermediatePose Main_Code (homePose Main_Code)
           (deltas (homePose Main_Code)
              \<lparr>base = 60, shoulder = 70, elbow = 110, wrist = 80, gripper = 90\<rparr>) 10 7)
     \<le> base (intermediatePose Main_Code (homePose Main_Code)
           (deltas (homePose Main_Code)
              \<lparr>base = 60, shoulder = 70, elbow = 110, wrist = 80, gripper = 90\<rparr>) 10 3) \<and>
   base (intermediatePose Main_Code (homePose Main_Code)
           (deltas (homePose Main_Code)
              \<lparr>base = 60, shoulder = 70, elbow = 110, wrist = 80, gripper = 90\<rparr>) 10 3)
     \<le> base (homePose Main_Code) \<and>
   elbow (homePose Main_Code)
     \<le> elbow \<lparr>base = 60, shoulder = 70, elbow = 110, wrist = 80, gripper = 90\<rparr> \<and>
   small (elbow \<lparr>base = 60, shoulder = 70, elbow = 110, wrist = 80, gripper = 90\<rparr>
            - elbow (homePose Main_Code)) \<and>
   small (elbow (homePose Main_Code)) \<and>
   small (elbow \<lparr>base = 60, shoulder = 70, elbow = 110, wrist = 80, gripper = 90\<rparr>) \<and>
   elbow (homePose Main_Code)
     \<le> elbow (intermediatePose Main_Code (homePose Main_Code)
           (deltas (homePose Main_Code)
              \<lparr>base = 60, shoulder = 70, elbow = 110, wrist = 80, gripper = 90\<rparr>) 10 3) \<and>
   elbow (intermediatePose Main_Code (homePose Main_Code)
           (deltas (homePose Main_Code)
              \<lparr>base = 60, shoulder = 70, elbow = 110, wrist = 80, gripper = 90\<rparr>) 10 3)
     \<le> elbow (intermediatePose Main_Code (homePose Main_Code)
           (deltas (homePose Main_Code)
              \<lparr>base = 60, shoulder = 70, elbow = 110, wrist = 80, gripper = 90\<rparr>) 10 7) \<and>
   elbow (intermediatePose Main_Code (homePose Main_Code)
           (deltas (homePose Main_Code)
              \<lparr>base = 60, shoulder = 70, elbow = 110, wrist = 80, gripper = 90\<rparr>) 10 7)
     \<le> elbow \<lparr>base = 60, shoulder = 70, elbow = 110, wrist = 80, gripper = 90\<rparr>"
proof -
  let ?t = "\<lparr>base = 60, shoulder = 70, elbow = 110, wrist = 80, gripper = 90\<rparr>"
  let ?h = "homePose Main_Code"
  let ?v = "intermediatePose Main_Code ?h (deltas ?h ?t) 10"
  have h: "(1::int) \<le> 3" "(3::int) \<le> 7" "(7::int) \<le> 10"
    by simp_all
  have h7: "(1::int) \<le> 7" "(7::int) \<le> 7"
    by simp_all
  have j: "base \<in> set joints" "elbow \<in> set joints"
    by (simp_all add: joints_def)
  have bb: "bounded_pose ?h" "bounded_pose ?t" "int32 (10 + 1)"
    by (simp_all add: bounded_pose_def bounded_def int32_def limits_Main_Code_def)
  have g: "base ?t \<le> base ?h" "small (base ?t - base ?h)" "small (base ?h)" "small (base ?t)"
    by (simp_all add: small_def)
  have g': "elbow ?h \<le> elbow ?t" "small (elbow ?t - elbow ?h)" "small (elbow ?h)"
      "small (elbow ?t)"
    by (simp_all add: small_def)
  from intermediatePose_monotone [OF h j(1) bb, of Main_Code] g
  have a: "base (?v 7) \<le> base (?v 3)" and b: "base (?v 3) \<le> base ?h"
    by blast+
  from intermediatePose_monotone [OF h7 h(3) j(1) bb, of Main_Code] g
  have c: "base ?t \<le> base (?v 7)"
    by blast
  from intermediatePose_monotone [OF h j(2) bb, of Main_Code] g'
  have a': "elbow (?v 3) \<le> elbow (?v 7)" and b': "elbow ?h \<le> elbow (?v 3)"
    by blast+
  from intermediatePose_monotone [OF h7 h(3) j(2) bb, of Main_Code] g'
  have c': "elbow (?v 7) \<le> elbow ?t"
    by blast
  show ?thesis
    using h j bb g c a b g' b' a' c' by (intro conjI)
qed

end
